theory Spec2Isabelle
  imports Complex_Main
begin

section \<open>Errors and results\<close>

text \<open>
  Every raise of \<^verbatim>\<open>self_attention_decoder.py\<close> is a value. \<open>ScheduledSamplingNotSupported\<close>
  is the \<^verbatim>\<open>ValueError("Scheduled sampling is not supported by this decoder")\<close> of
  \<^verbatim>\<open>forward\<close>; \<open>TypeError\<close> is Python's \<^verbatim>\<open>zip\<close> over \<^verbatim>\<open>None\<close>; \<open>IndexError\<close> is
  \<^verbatim>\<open>cache[i]\<close> out of range; \<open>UnboundLocalError\<close> is the read of the local
  \<^verbatim>\<open>attention\<close> of \<^verbatim>\<open>_run\<close> when no layer has assigned it; \<open>ZeroDivisionError\<close> is
  \<^verbatim>\<open>num_units // num_heads\<close> with no head. \<open>CollaboratorError\<close> stands for any
  exception that a function outside this file raises (the tensor library, the attention,
  feed-forward, normalisation and position-encoding layers).
\<close>

datatype error =
    ScheduledSamplingNotSupported
  | TypeError
  | IndexError
  | UnboundLocalError
  | ZeroDivisionError
  | CollaboratorError

definition bindE :: "error + 'a \<Rightarrow> ('a \<Rightarrow> error + 'b) \<Rightarrow> error + 'b" where
  "bindE m f = (case m of Inl e \<Rightarrow> Inl e | Inr x \<Rightarrow> f x)"

text \<open>A call of a collaborator: \<open>None\<close> is an exception raised inside it.\<close>

definition collab :: "'a option \<Rightarrow> error + 'a" where
  "collab r = (case r of None \<Rightarrow> Inl CollaboratorError | Some x \<Rightarrow> Inr x)"

section \<open>Data model\<close>

text \<open>
  An argument that is either one tensor or a list or tuple of them
  (\<^verbatim>\<open>isinstance(memory, (list, tuple))\<close>).
\<close>

datatype 'a seq_or_bare = Bare 'a | Seq "'a list"

datatype dtype = Float16 | Float32 | Float64

text \<open>A pair (keys, values) of projections.\<close>

type_synonym 't kv = "'t \<times> 't"

text \<open>
  The cache of one layer is a Python dict read only through \<^verbatim>\<open>cache.get("self_kv")\<close> and
  \<^verbatim>\<open>cache.get("memory_kv")\<close>: a missing key is \<open>None\<close>, and \<^verbatim>\<open>{}\<close> has both missing.
\<close>

record 't layer_cache =
  self_kv :: "'t kv option"
  memory_kv :: "'t kv list option"

text \<open>
  What a wrapped memory attention returns: a tuple of two elements, or of three when it
  was built with \<^verbatim>\<open>return_attention=True\<close> (the code tests \<^verbatim>\<open>len(result) == 3\<close>).
\<close>

datatype 't attention_result = Result2 't "'t kv" | Result3 't "'t kv" 't

text \<open>
  The tensor library and the helpers of \<^verbatim>\<open>opennmt.layers\<close> that the decoder calls, over an
  abstract type \<open>'t\<close> of tensors. \<open>shape\<close> is the shape of a tensor, \<open>mul_sqrt x n\<close> the product
  \<^verbatim>\<open>x * n**0.5\<close> in floating point, \<open>first_head\<close> the slice \<^verbatim>\<open>attention[:, 0]\<close>,
  \<open>common_dropout\<close> is \<^verbatim>\<open>common.dropout(inputs, rate, training=training)\<close>.
\<close>

record 't tf =
  shape :: "'t \<Rightarrow> nat list"
  zeros :: "nat list \<Rightarrow> dtype \<Rightarrow> 't"
  expand_dims :: "'t \<Rightarrow> nat \<Rightarrow> 't option"
  squeeze :: "'t \<Rightarrow> nat \<Rightarrow> 't option"
  mul_sqrt :: "'t \<Rightarrow> nat \<Rightarrow> 't option"
  first_head :: "'t \<Rightarrow> 't option"
  sequence_mask :: "'t \<Rightarrow> nat \<Rightarrow> 't option"
  future_mask :: "'t \<Rightarrow> nat \<Rightarrow> 't option"
  common_dropout :: "'t \<Rightarrow> real \<Rightarrow> bool option \<Rightarrow> 't option"

text \<open>
  The sublayers of one \<^verbatim>\<open>_SelfAttentionDecoderLayer\<close>, each already inside its
  \<^verbatim>\<open>TransformerLayerWrapper\<close>. A self attention takes (inputs, mask, cache, training), a
  memory attention (inputs, memory, mask, cache, training), the feed-forward network
  (inputs, training).
\<close>

type_synonym 't self_attention_fn =
  "'t \<Rightarrow> 't option \<Rightarrow> 't kv option \<Rightarrow> bool option \<Rightarrow> ('t \<times> 't kv) option"

type_synonym 't attention_fn =
  "'t \<Rightarrow> 't \<Rightarrow> 't option \<Rightarrow> 't kv option \<Rightarrow> bool option \<Rightarrow> 't attention_result option"

record 't decoder_layer =
  self_attention :: "'t self_attention_fn"
  attention :: "'t attention_fn list"
  ffn :: "'t \<Rightarrow> bool option \<Rightarrow> 't option"

text \<open>
  The attributes of a \<^verbatim>\<open>SelfAttentionDecoder\<close>. \<open>num_sources\<close> and \<open>output_layer\<close> are
  attributes of the base class \<^verbatim>\<open>decoder.Decoder\<close>.
\<close>

record 't decoder =
  num_units :: nat
  num_heads :: nat
  dropout :: real
  position_encoder :: "('t \<Rightarrow> int option \<Rightarrow> 't option) option"
  layer_norm :: "'t \<Rightarrow> 't option"
  layers :: "'t decoder_layer list"
  num_sources :: nat
  output_layer :: "'t \<Rightarrow> 't option"

text \<open>
  The classes of \<^verbatim>\<open>opennmt.layers\<close> that the constructors instantiate. An object has its
  own weights, so every constructor takes the place of the object it builds: the index of
  the layer, and for a memory attention the index of the source. The arguments after
  that are those of the source: number of heads, number of units, the dropout of the
  attention, \<^verbatim>\<open>return_attention\<close>, the dropout of the wrapper.
\<close>

record 't classes =
  new_self_attention :: "nat \<Rightarrow> nat \<Rightarrow> nat \<Rightarrow> real \<Rightarrow> real \<Rightarrow> 't self_attention_fn"
  new_attention :: "nat \<Rightarrow> nat \<Rightarrow> nat \<Rightarrow> nat \<Rightarrow> real \<Rightarrow> bool \<Rightarrow> real \<Rightarrow> 't attention_fn"
  new_ffn :: "nat \<Rightarrow> nat \<Rightarrow> nat \<Rightarrow> real \<Rightarrow> real \<Rightarrow> 't \<Rightarrow> bool option \<Rightarrow> 't option"
  new_layer_norm :: "'t \<Rightarrow> 't option"

section \<open>The constructors\<close>

text \<open>\<^verbatim>\<open>_SelfAttentionDecoderLayer.__init__\<close>, for the layer of index \<open>i\<close>.\<close>

definition SelfAttentionDecoderLayer ::
  "'t classes \<Rightarrow> nat \<Rightarrow> nat \<Rightarrow> nat \<Rightarrow> nat \<Rightarrow> nat \<Rightarrow> real \<Rightarrow> real \<Rightarrow> real \<Rightarrow> 't decoder_layer" where
  "SelfAttentionDecoderLayer cls i n_units n_heads ffn_inner_dim n_sources
      dropout_rate attention_dropout ffn_dropout =
     \<lparr> self_attention = new_self_attention cls i n_heads n_units attention_dropout dropout_rate,
       attention = map (\<lambda>j. new_attention cls i j n_heads n_units attention_dropout
                              (n_sources = 1) dropout_rate) [0..<n_sources],
       ffn = new_ffn cls i ffn_inner_dim n_units ffn_dropout dropout_rate \<rparr>"

text \<open>
  \<^verbatim>\<open>SelfAttentionDecoder.__init__\<close>. \<open>position_encoder_class\<close> is \<open>None\<close> or the encoder that
  \<^verbatim>\<open>position_encoder_class()\<close> builds; \<open>out_layer\<close> is the output layer of the base class.
\<close>

definition SelfAttentionDecoder ::
  "'t classes \<Rightarrow> nat \<Rightarrow> nat \<Rightarrow> nat \<Rightarrow> nat \<Rightarrow> real \<Rightarrow> real \<Rightarrow> real \<Rightarrow>
   ('t \<Rightarrow> int option \<Rightarrow> 't option) option \<Rightarrow> nat \<Rightarrow> ('t \<Rightarrow> 't option) \<Rightarrow> 't decoder" where
  "SelfAttentionDecoder cls n_layers n_units n_heads ffn_inner_dim dropout_rate
      attention_dropout ffn_dropout position_encoder_class n_sources out_layer =
     \<lparr> num_units = n_units,
       num_heads = n_heads,
       dropout = dropout_rate,
       position_encoder = position_encoder_class,
       layer_norm = new_layer_norm cls,
       layers = map (\<lambda>i. SelfAttentionDecoderLayer cls i n_units n_heads ffn_inner_dim
                            n_sources dropout_rate attention_dropout ffn_dropout) [0..<n_layers],
       num_sources = n_sources,
       output_layer = out_layer \<rparr>"

definition minimum_sources :: "'t decoder \<Rightarrow> nat" where
  "minimum_sources self = 0"

definition support_alignment_history :: "'t decoder \<Rightarrow> bool" where
  "support_alignment_history self = (num_sources self = 1)"

section \<open>One decoder layer\<close>

text \<open>
  The loop of \<^verbatim>\<open>_SelfAttentionDecoderLayer.call\<close> over
  \<^verbatim>\<open>zip(self.attention, memory, memory_mask, memory_cache)\<close>, with the variables
  \<^verbatim>\<open>outputs\<close>, \<^verbatim>\<open>attention\<close> and \<^verbatim>\<open>memory_kv\<close> it updates.
\<close>

fun attend ::
  "'t tf \<Rightarrow> bool option \<Rightarrow> ('t attention_fn \<times> 't \<times> 't \<times> 't kv option) list \<Rightarrow>
   't \<Rightarrow> 't option \<Rightarrow> 't kv list \<Rightarrow> error + ('t \<times> 't option \<times> 't kv list)" where
  "attend lib training [] outputs att mkv = Inr (outputs, att, mkv)"
| "attend lib training ((layer, mem, mem_mask, mem_cache) # rest) outputs att mkv =
     bindE (collab (layer outputs mem (Some mem_mask) mem_cache training)) (\<lambda>result.
       case result of
         Result3 outputs' memory_kv_i a \<Rightarrow>
           bindE (collab (first_head lib a)) (\<lambda>a0.
             attend lib training rest outputs' (Some a0) (mkv @ [memory_kv_i]))
       | Result2 outputs' memory_kv_i \<Rightarrow>
           attend lib training rest outputs' att (mkv @ [memory_kv_i]))"

text \<open>
  \<^verbatim>\<open>_SelfAttentionDecoderLayer.call\<close>. \<^verbatim>\<open>zip\<close> raises \<^verbatim>\<open>TypeError\<close> when \<^verbatim>\<open>memory_mask\<close>
  is \<^verbatim>\<open>None\<close>, and stops at the shortest of its four arguments.
\<close>

definition call ::
  "'t tf \<Rightarrow> 't decoder_layer \<Rightarrow> 't \<Rightarrow> 't option \<Rightarrow> 't list option \<Rightarrow> 't list option \<Rightarrow>
   't layer_cache option \<Rightarrow> bool option \<Rightarrow> error + ('t \<times> 't layer_cache \<times> 't option)" where
  "call lib self inputs msk memory memory_mask cache training =
     (let cache = (case cache of None \<Rightarrow> \<lparr>self_kv = None, memory_kv = None\<rparr> | Some c \<Rightarrow> c) in
      bindE (collab (self_attention self inputs msk (self_kv cache) training)) (\<lambda>(outputs, skv).
      bindE (case memory of
               None \<Rightarrow> Inr (outputs, None, [])
             | Some mems \<Rightarrow>
                 (let memory_cache =
                        (case memory_kv cache of
                           None \<Rightarrow> replicate (length (attention self)) None
                         | Some c \<Rightarrow> map Some c)
                  in case memory_mask of
                       None \<Rightarrow> Inl TypeError
                     | Some masks \<Rightarrow>
                         attend lib training
                           (zip (attention self) (zip mems (zip masks memory_cache)))
                           outputs None []))
        (\<lambda>(outputs, att, mkv).
      bindE (collab (ffn self outputs training)) (\<lambda>outputs.
      Inr (outputs, \<lparr>self_kv = Some skv, memory_kv = Some mkv\<rparr>, att)))))"

section \<open>The decoder\<close>

text \<open>\<^verbatim>\<open>tf.shape(x)[1]\<close>: the second dimension, an error on a tensor of rank below 2.\<close>

definition dim1 :: "'t tf \<Rightarrow> 't \<Rightarrow> error + nat" where
  "dim1 lib x = (if 1 < length (shape lib x) then Inr (shape lib x ! 1) else Inl CollaboratorError)"

text \<open>The loop of \<^verbatim>\<open>_run\<close> over \<^verbatim>\<open>zip(memory, memory_sequence_length)\<close>.\<close>

fun memory_masks :: "'t tf \<Rightarrow> ('t \<times> 't) list \<Rightarrow> error + 't list" where
  "memory_masks lib [] = Inr []"
| "memory_masks lib ((mem, mem_length) # rest) =
     bindE (dim1 lib mem) (\<lambda>maxlen.
     bindE (collab (sequence_mask lib mem_length maxlen)) (\<lambda>mem_mask.
     bindE (collab (expand_dims lib mem_mask 1)) (\<lambda>mem_mask.
     bindE (memory_masks lib rest) (\<lambda>ms. Inr (mem_mask # ms)))))"

text \<open>
  The query mask of \<^verbatim>\<open>_run\<close> (\<^verbatim>\<open>mask = None\<close>, then \<^verbatim>\<open>future_mask\<close> when
  \<^verbatim>\<open>sequence_length\<close> is given).
\<close>

definition query_mask :: "'t tf \<Rightarrow> 't \<Rightarrow> 't option \<Rightarrow> error + 't option" where
  "query_mask lib inputs sequence_length =
     (case sequence_length of
        None \<Rightarrow> Inr None
      | Some sl \<Rightarrow>
          bindE (dim1 lib inputs) (\<lambda>maximum_length.
          bindE (collab (future_mask lib sl maximum_length)) (\<lambda>m. Inr (Some m))))"

text \<open>
  The loop of \<^verbatim>\<open>_run\<close> over \<^verbatim>\<open>enumerate(self.layers)\<close>. The local \<^verbatim>\<open>attention\<close> is
  unbound (\<open>None\<close>) until a layer has run, then bound (\<open>Some\<close>) to what the last layer
  returned, which may itself be \<^verbatim>\<open>None\<close>.
\<close>

fun run_layers ::
  "'t tf \<Rightarrow> 't decoder_layer list \<Rightarrow> nat \<Rightarrow> 't option \<Rightarrow> 't list option \<Rightarrow> 't list option \<Rightarrow>
   't layer_cache list option \<Rightarrow> bool option \<Rightarrow> 't \<Rightarrow> 't layer_cache list \<Rightarrow> 't option option \<Rightarrow>
   error + ('t \<times> 't layer_cache list \<times> 't option option)" where
  "run_layers lib [] i msk memory memory_mask cache training inputs new_cache att =
     Inr (inputs, new_cache, att)"
| "run_layers lib (layer # rest) i msk memory memory_mask cache training inputs new_cache att =
     bindE (case cache of
              None \<Rightarrow> Inr None
            | Some c \<Rightarrow> if i < length c then Inr (Some (c ! i)) else Inl IndexError) (\<lambda>cache_i.
     bindE (call lib layer inputs msk memory memory_mask cache_i training)
       (\<lambda>(inputs', layer_cache, att').
     run_layers lib rest (Suc i) msk memory memory_mask cache training inputs'
       (new_cache @ [layer_cache]) (Some att')))"

text \<open>
  The first lines of \<^verbatim>\<open>_run\<close> ("Process inputs"): the product with
  \<^verbatim>\<open>num_units**0.5\<close>, the position encoding at \<^verbatim>\<open>step + 1\<close> or at \<^verbatim>\<open>None\<close>, the dropout.
\<close>

definition process_inputs ::
  "'t tf \<Rightarrow> 't decoder \<Rightarrow> 't \<Rightarrow> int option \<Rightarrow> bool option \<Rightarrow> error + 't" where
  "process_inputs lib self inputs step training =
     bindE (collab (mul_sqrt lib inputs (num_units self))) (\<lambda>inputs.
     bindE (case position_encoder self of
              None \<Rightarrow> Inr inputs
            | Some encoder \<Rightarrow>
                collab (encoder inputs (case step of None \<Rightarrow> None | Some s \<Rightarrow> Some (s + 1))))
       (\<lambda>inputs.
     collab (common_dropout lib inputs (dropout self) training)))"

text \<open>
  The elements of an argument after
  \<^verbatim>\<open>if not isinstance(a, (list, tuple)): a = (a,)\<close>.
\<close>

definition seq_items :: "'a seq_or_bare \<Rightarrow> 'a list" where
  "seq_items a = (case a of Bare x \<Rightarrow> [x] | Seq xs \<Rightarrow> xs)"

text \<open>
  The memory mask of \<^verbatim>\<open>_run\<close> ("Prepare memory mask"), after \<^verbatim>\<open>memory\<close> has been made
  a tuple. \<^verbatim>\<open>zip(memory, memory_sequence_length)\<close> raises \<^verbatim>\<open>TypeError\<close> when
  \<^verbatim>\<open>memory\<close> is \<^verbatim>\<open>None\<close>.
\<close>

definition prepare_memory_mask ::
  "'t tf \<Rightarrow> 't list option \<Rightarrow> 't seq_or_bare option \<Rightarrow> error + 't list option" where
  "prepare_memory_mask lib memory memory_sequence_length =
     (case memory_sequence_length of
        None \<Rightarrow> Inr None
      | Some msl \<Rightarrow>
          (let lengths = seq_items msl in
           case memory of
             None \<Rightarrow> Inl TypeError
           | Some mems \<Rightarrow> bindE (memory_masks lib (zip mems lengths)) (\<lambda>ms. Inr (Some ms))))"

text \<open>\<^verbatim>\<open>if not isinstance(memory, (list, tuple)): memory = (memory,)\<close>, under \<^verbatim>\<open>memory is not None\<close>.\<close>

definition as_tuple :: "'t seq_or_bare option \<Rightarrow> 't list option" where
  "as_tuple memory = (case memory of None \<Rightarrow> None | Some m \<Rightarrow> Some (seq_items m))"

text \<open>\<^verbatim>\<open>SelfAttentionDecoder._run\<close>.\<close>

definition run ::
  "'t tf \<Rightarrow> 't decoder \<Rightarrow> 't \<Rightarrow> 't option \<Rightarrow> 't layer_cache list option \<Rightarrow>
   't seq_or_bare option \<Rightarrow> 't seq_or_bare option \<Rightarrow> int option \<Rightarrow> bool option \<Rightarrow>
   error + ('t \<times> 't layer_cache list \<times> 't option)" where
  "run lib self inputs sequence_length cache memory memory_sequence_length step training =
     bindE (process_inputs lib self inputs step training) (\<lambda>inputs.
     bindE (query_mask lib inputs sequence_length) (\<lambda>msk.
     (let memory = as_tuple memory in
      bindE (prepare_memory_mask lib memory memory_sequence_length) (\<lambda>memory_mask.
      bindE (run_layers lib (layers self) 0 msk memory memory_mask cache training inputs [] None)
        (\<lambda>(inputs, new_cache, att).
      bindE (collab (layer_norm self inputs)) (\<lambda>outputs.
      case att of
        None \<Rightarrow> Inl UnboundLocalError
      | Some a \<Rightarrow> Inr (outputs, new_cache, a)))))))"

text \<open>\<^verbatim>\<open>SelfAttentionDecoder.forward\<close>.\<close>

definition forward ::
  "'t tf \<Rightarrow> 't decoder \<Rightarrow> 't \<Rightarrow> 't option \<Rightarrow> 's option \<Rightarrow> 't seq_or_bare option \<Rightarrow>
   't seq_or_bare option \<Rightarrow> 'f option \<Rightarrow> 'p option \<Rightarrow> bool option \<Rightarrow>
   error + ('t \<times> 't layer_cache list \<times> 't option)" where
  "forward lib self inputs sequence_length initial_state memory memory_sequence_length
      input_fn sampling_probability training =
     (if sampling_probability \<noteq> None then Inl ScheduledSamplingNotSupported
      else
        bindE (run lib self inputs sequence_length None memory memory_sequence_length None training)
          (\<lambda>(outputs, state, att).
        bindE (collab (output_layer self outputs)) (\<lambda>logits.
        Inr (logits, state, att))))"

text \<open>\<^verbatim>\<open>SelfAttentionDecoder.step\<close>.\<close>

definition step ::
  "'t tf \<Rightarrow> 't decoder \<Rightarrow> 't \<Rightarrow> int \<Rightarrow> 't layer_cache list option \<Rightarrow> 't seq_or_bare option \<Rightarrow>
   't seq_or_bare option \<Rightarrow> bool option \<Rightarrow> error + ('t \<times> 't layer_cache list \<times> 't option)" where
  "step lib self inputs timestep state memory memory_sequence_length training =
     bindE (collab (expand_dims lib inputs 1)) (\<lambda>inputs.
     bindE (run lib self inputs None state memory memory_sequence_length (Some timestep) training)
       (\<lambda>(outputs, state, att).
     bindE (collab (squeeze lib outputs 1)) (\<lambda>outputs.
     bindE (case att of
              None \<Rightarrow> Inr None
            | Some a \<Rightarrow> bindE (collab (squeeze lib a 1)) (\<lambda>a. Inr (Some a))) (\<lambda>att.
     Inr (outputs, state, att)))))"

text \<open>
  \<^verbatim>\<open>SelfAttentionDecoder._get_initial_state\<close>: the loop over \<^verbatim>\<open>self.layers\<close>.
  \<^verbatim>\<open>num_units // num_heads\<close> raises when \<^verbatim>\<open>num_heads\<close> is 0.
\<close>

fun initial_state_layers ::
  "'t tf \<Rightarrow> 't decoder \<Rightarrow> nat \<Rightarrow> dtype \<Rightarrow> 't decoder_layer list \<Rightarrow> error + 't layer_cache list" where
  "initial_state_layers lib self batch_size dt [] = Inr []"
| "initial_state_layers lib self batch_size dt (l # ls) =
     (if num_heads self = 0 then Inl ZeroDivisionError
      else
        (let shp = [batch_size, num_heads self, 0, num_units self div num_heads self];
             skv = (zeros lib shp dt, zeros lib shp dt);
             mkv = map (\<lambda>_. (zeros lib shp dt, zeros lib shp dt)) [0..<num_sources self]
         in bindE (initial_state_layers lib self batch_size dt ls) (\<lambda>cache.
            Inr (\<lparr>self_kv = Some skv, memory_kv = Some mkv\<rparr> # cache))))"

definition get_initial_state ::
  "'t tf \<Rightarrow> 't decoder \<Rightarrow> nat \<Rightarrow> dtype \<Rightarrow> 's option \<Rightarrow> error + 't layer_cache list" where
  "get_initial_state lib self batch_size dt initial_state =
     initial_state_layers lib self batch_size dt (layers self)"

section \<open>Successive steps\<close>

text \<open>
  The loop of a caller that decodes incrementally: one call of \<^verbatim>\<open>step\<close> for each pair of
  an input and a timestep, each call given the state that the call before returned, with
  the same memory throughout. The result is the state after the last call.
\<close>

fun successive_steps ::
  "'t tf \<Rightarrow> 't decoder \<Rightarrow> ('t \<times> int) list \<Rightarrow> 't layer_cache list \<Rightarrow> 't seq_or_bare option \<Rightarrow>
   't seq_or_bare option \<Rightarrow> bool option \<Rightarrow> error + 't layer_cache list" where
  "successive_steps lib self [] state memory memory_sequence_length training = Inr state"
| "successive_steps lib self ((inputs, timestep) # rest) state memory memory_sequence_length training =
     bindE (step lib self inputs timestep (Some state) memory memory_sequence_length training)
       (\<lambda>(outputs, state', att).
     successive_steps lib self rest state' memory memory_sequence_length training)"

section \<open>The number of cached memory projections\<close>

text \<open>
  The length of the list \<^verbatim>\<open>memory_cache\<close> that \<^verbatim>\<open>call\<close> of the layer of index \<open>i\<close> zips
  with its \<open>n\<close> memory attentions: \<open>n\<close> when there is no cache or the cache of the layer has
  no \<^verbatim>\<open>memory_kv\<close> (the list is \<^verbatim>\<open>[None] * len(self.attention)\<close>), and else the length of
  the cached \<^verbatim>\<open>memory_kv\<close>.
\<close>

definition cached_sources :: "'t layer_cache list option \<Rightarrow> nat \<Rightarrow> nat \<Rightarrow> nat" where
  "cached_sources cache i n =
     (case cache of
        None \<Rightarrow> n
      | Some c \<Rightarrow> (case memory_kv (c ! i) of None \<Rightarrow> n | Some cm \<Rightarrow> length cm))"

text \<open>
  The element of \<^verbatim>\<open>memory_cache\<close> that \<^verbatim>\<open>call\<close> of the layer of index \<open>i\<close> zips with its
  memory attention of index \<open>j\<close>: \<^verbatim>\<open>None\<close> when there is no cache or the cache of the layer
  has no \<^verbatim>\<open>memory_kv\<close>, and else the cached pair of index \<open>j\<close>.
\<close>

definition cached_pair :: "'t layer_cache list option \<Rightarrow> nat \<Rightarrow> nat \<Rightarrow> 't kv option" where
  "cached_pair cache i j =
     (case cache of
        None \<Rightarrow> None
      | Some c \<Rightarrow> (case memory_kv (c ! i) of None \<Rightarrow> None | Some cm \<Rightarrow> Some (cm ! j)))"

section \<open>Decoders that ignore an argument\<close>

text \<open>
  To say which mask the layers receive, and at which position the encoder is applied:
  \<open>with_mask m self\<close> is \<open>self\<close> with every self attention made deaf to the mask it is
  given and run on \<open>m\<close> instead; \<open>at_position p self\<close> is \<open>self\<close> with the position encoder
  made deaf to its position and run at \<open>p\<close> instead.
\<close>

definition with_mask :: "'t option \<Rightarrow> 't decoder \<Rightarrow> 't decoder" where
  "with_mask m self =
     self\<lparr>layers := map (\<lambda>l. l\<lparr>self_attention := (\<lambda>x given c tr. self_attention l x m c tr)\<rparr>)
                        (layers self)\<rparr>"

definition at_position :: "int option \<Rightarrow> 't decoder \<Rightarrow> 't decoder" where
  "at_position p self =
     self\<lparr>position_encoder :=
            (case position_encoder self of
               None \<Rightarrow> None
             | Some encoder \<Rightarrow> Some (\<lambda>x given. encoder x p))\<rparr>"

section \<open>What the collaborators guarantee\<close>

text \<open>
  Modelled from the spec: the tensor library (\<^verbatim>\<open>tf.zeros\<close>, \<^verbatim>\<open>tf.expand_dims\<close>,
  \<^verbatim>\<open>tf.squeeze\<close>, the product with a scalar, the slice \<^verbatim>\<open>[:, 0]\<close>) and
  \<^verbatim>\<open>common.dropout\<close> are not in this file. What is used of them is the shape of what they
  return when they return: \<open>zeros\<close> has the shape it is given, \<open>expand_dims\<close> inserts a
  dimension 1, \<open>squeeze\<close> removes a dimension that is 1, the product and the dropout keep
  the shape, and the slice of the first head removes the second dimension.
\<close>

definition tf_spec :: "'t tf \<Rightarrow> bool" where
  "tf_spec lib =
     ((\<forall>s d. shape lib (zeros lib s d) = s) \<and>
      (\<forall>x axis y. expand_dims lib x axis = Some y \<longrightarrow>
         axis \<le> length (shape lib x) \<and>
         shape lib y = take axis (shape lib x) @ [1] @ drop axis (shape lib x)) \<and>
      (\<forall>x axis y. squeeze lib x axis = Some y \<longrightarrow>
         axis < length (shape lib x) \<and> shape lib x ! axis = 1 \<and>
         shape lib y = take axis (shape lib x) @ drop (Suc axis) (shape lib x)) \<and>
      (\<forall>x n y. mul_sqrt lib x n = Some y \<longrightarrow> shape lib y = shape lib x) \<and>
      (\<forall>x r tr y. common_dropout lib x r tr = Some y \<longrightarrow> shape lib y = shape lib x) \<and>
      (\<forall>a y. first_head lib a = Some y \<longrightarrow>
         2 \<le> length (shape lib a) \<and> 0 < shape lib a ! 1 \<and>
         shape lib y = take 1 (shape lib a) @ drop 2 (shape lib a)))"

text \<open>
  Modelled from the spec: \<^verbatim>\<open>transformer.MultiHeadAttention\<close> used as self attention
  (inside its \<^verbatim>\<open>TransformerLayerWrapper\<close>) is not in this file. From the spec: the query
  is a [batch, time, units] array and the output has its shape; the cache is a pair of
  arrays [batch, heads, seen_time, head_dim]; the sublayer appends the projections of the
  current timesteps to the cached history. \<open>h\<close> is the number of heads and \<open>d\<close> the
  dimension of a head.
\<close>

definition self_attention_spec :: "'t tf \<Rightarrow> nat \<Rightarrow> nat \<Rightarrow> 't self_attention_fn \<Rightarrow> bool" where
  "self_attention_spec lib h d f =
     (\<forall>x m c tr y k v. f x m c tr = Some (y, (k, v)) \<longrightarrow>
        length (shape lib x) = 3 \<and> shape lib y = shape lib x \<and>
        (case c of
           None \<Rightarrow>
             shape lib k = [shape lib x ! 0, h, shape lib x ! 1, d] \<and>
             shape lib v = [shape lib x ! 0, h, shape lib x ! 1, d]
         | Some (ck, cv) \<Rightarrow>
             length (shape lib ck) = 4 \<and> length (shape lib cv) = 4 \<and>
             shape lib k = [shape lib x ! 0, h, shape lib ck ! 2 + shape lib x ! 1, d] \<and>
             shape lib v = [shape lib x ! 0, h, shape lib cv ! 2 + shape lib x ! 1, d]))"

text \<open>The three parts of what a memory attention returns.\<close>

fun result_outputs :: "'t attention_result \<Rightarrow> 't" where
  "result_outputs (Result2 y c) = y"
| "result_outputs (Result3 y c a) = y"

fun result_kv :: "'t attention_result \<Rightarrow> 't kv" where
  "result_kv (Result2 y c) = c"
| "result_kv (Result3 y c a) = c"

fun result_attention :: "'t attention_result \<Rightarrow> 't option" where
  "result_attention (Result2 y c) = None"
| "result_attention (Result3 y c a) = Some a"

text \<open>
  Modelled from the spec: \<^verbatim>\<open>transformer.MultiHeadAttention\<close> used as memory attention
  (inside its \<^verbatim>\<open>TransformerLayerWrapper\<close>) is not in this file. From the spec: the
  projections of a memory [batch, source_time, units] have time dimension source_time;
  they are computed on the first call (no cache, or a cache of time dimension 0) and the
  cached pair is used again afterwards; the attention weights are returned when and only
  when the sublayer was built to return them (\<open>ra\<close>), one [query_time, key_time] matrix
  for each batch row and head.
\<close>

definition attention_spec :: "'t tf \<Rightarrow> nat \<Rightarrow> nat \<Rightarrow> bool \<Rightarrow> 't attention_fn \<Rightarrow> bool" where
  "attention_spec lib h d ra f =
     (\<forall>x mem m c tr r. f x mem m c tr = Some r \<longrightarrow>
        length (shape lib x) = 3 \<and> length (shape lib mem) = 3 \<and>
        shape lib (result_outputs r) = shape lib x \<and>
        (case c of
           None \<Rightarrow>
             shape lib (fst (result_kv r)) = [shape lib x ! 0, h, shape lib mem ! 1, d] \<and>
             shape lib (snd (result_kv r)) = [shape lib x ! 0, h, shape lib mem ! 1, d]
         | Some (ck, cv) \<Rightarrow>
             length (shape lib ck) = 4 \<and> length (shape lib cv) = 4 \<and>
             (if shape lib ck ! 2 = 0
              then shape lib (fst (result_kv r)) = [shape lib x ! 0, h, shape lib mem ! 1, d] \<and>
                   shape lib (snd (result_kv r)) = [shape lib x ! 0, h, shape lib mem ! 1, d]
              else result_kv r = (ck, cv))) \<and>
        (case result_attention r of
           None \<Rightarrow> \<not> ra
         | Some a \<Rightarrow>
             ra \<and> shape lib a =
               [shape lib x ! 0, h, shape lib x ! 1, shape lib (fst (result_kv r)) ! 2]))"

text \<open>
  Modelled from the spec: the feed-forward network, the layer normalisation and the
  position encoder are not in this file; each is position-wise and returns an array of
  the shape of its input. \<open>decoder_spec lib self\<close> says that the sublayers of \<open>self\<close> meet
  these descriptions for the number of heads and of units of \<open>self\<close>, and that \<open>self\<close> is
  as \<^verbatim>\<open>__init__\<close> builds it: each layer has \<open>num_sources\<close> memory attentions, built with
  \<^verbatim>\<open>return_attention=num_sources == 1\<close>.
\<close>

definition layer_spec :: "'t tf \<Rightarrow> nat \<Rightarrow> nat \<Rightarrow> nat \<Rightarrow> 't decoder_layer \<Rightarrow> bool" where
  "layer_spec lib h d n l =
     (self_attention_spec lib h d (self_attention l) \<and>
      length (attention l) = n \<and>
      list_all (attention_spec lib h d (n = 1)) (attention l) \<and>
      (\<forall>x tr y. ffn l x tr = Some y \<longrightarrow> shape lib y = shape lib x))"

definition decoder_spec :: "'t tf \<Rightarrow> 't decoder \<Rightarrow> bool" where
  "decoder_spec lib self =
     (list_all (layer_spec lib (num_heads self) (num_units self div num_heads self)
                  (num_sources self)) (layers self) \<and>
      (\<forall>encoder x p y. position_encoder self = Some encoder \<longrightarrow> encoder x p = Some y \<longrightarrow>
         shape lib y = shape lib x) \<and>
      (\<forall>x y. layer_norm self x = Some y \<longrightarrow> shape lib y = shape lib x))"

definition classes_spec :: "'t tf \<Rightarrow> 't classes \<Rightarrow> bool" where
  "classes_spec lib cls =
     ((\<forall>i h u a dr. self_attention_spec lib h (u div h) (new_self_attention cls i h u a dr)) \<and>
      (\<forall>i j h u a ra dr. attention_spec lib h (u div h) ra (new_attention cls i j h u a ra dr)) \<and>
      (\<forall>i n u fd dr x tr y. new_ffn cls i n u fd dr x tr = Some y \<longrightarrow> shape lib y = shape lib x) \<and>
      (\<forall>x y. new_layer_norm cls x = Some y \<longrightarrow> shape lib y = shape lib x))"

section \<open>Time dimensions of a cache\<close>

text \<open>The time dimension of a [batch, heads, time, head_dim] array of projections.\<close>

definition time_dim :: "'t tf \<Rightarrow> 't \<Rightarrow> nat" where
  "time_dim lib x = shape lib x ! 2"

text \<open>The memory tensors of a call, in order: none when \<^verbatim>\<open>memory\<close> is \<^verbatim>\<open>None\<close>.\<close>

definition memory_list :: "'t seq_or_bare option \<Rightarrow> 't list" where
  "memory_list memory = (case memory of None \<Rightarrow> [] | Some m \<Rightarrow> seq_items m)"

text \<open>The keys and the values of \<^verbatim>\<open>self_kv\<close> have time dimension \<open>n\<close>.\<close>

definition self_kv_time :: "'t tf \<Rightarrow> nat \<Rightarrow> 't layer_cache \<Rightarrow> bool" where
  "self_kv_time lib n lc =
     (case self_kv lc of
        None \<Rightarrow> False
      | Some (k, v) \<Rightarrow> time_dim lib k = n \<and> time_dim lib v = n)"

text \<open>
  Every pair of \<^verbatim>\<open>memory_kv\<close> belongs to a memory tensor, the one of the same index, and
  its keys and values have the time dimension of that tensor (the second dimension of a
  [batch, source_time, units] array).
\<close>

definition memory_kv_time :: "'t tf \<Rightarrow> 't list \<Rightarrow> 't layer_cache \<Rightarrow> bool" where
  "memory_kv_time lib mems lc =
     (case memory_kv lc of
        None \<Rightarrow> False
      | Some kvs \<Rightarrow>
          length kvs \<le> length mems \<and>
          list_all (\<lambda>(kv, mem). time_dim lib (fst kv) = shape lib mem ! 1 \<and>
                                time_dim lib (snd kv) = shape lib mem ! 1) (zip kvs mems))"

text \<open>Every pair of \<^verbatim>\<open>memory_kv\<close> has time dimension 0, as in the initial state.\<close>

definition memory_kv_empty :: "'t tf \<Rightarrow> 't layer_cache \<Rightarrow> bool" where
  "memory_kv_empty lib lc =
     (case memory_kv lc of
        None \<Rightarrow> False
      | Some kvs \<Rightarrow> list_all (\<lambda>kv. time_dim lib (fst kv) = 0 \<and> time_dim lib (snd kv) = 0) kvs)"

text \<open>
  The state of a layer's cache after \<open>n\<close> steps from the initial state, with the memory
  tensors \<open>mems\<close>: \<^verbatim>\<open>self_kv\<close> has time dimension \<open>n\<close>; \<^verbatim>\<open>memory_kv\<close> is still empty
  before the first step and has the time dimensions of the memory after it.
\<close>

definition cache_after :: "'t tf \<Rightarrow> 't list \<Rightarrow> nat \<Rightarrow> 't layer_cache \<Rightarrow> bool" where
  "cache_after lib mems n lc =
     (self_kv_time lib n lc \<and>
      (if n = 0 then memory_kv_empty lib lc else memory_kv_time lib mems lc))"

text \<open>
  What \<open>attention_spec\<close> says of the pair \<open>kv\<close> that a memory attention returns for the
  memory \<open>mem\<close> and the cached pair \<open>c\<close>: projections of \<open>mem\<close> when there is no cached pair
  or its time dimension is 0, the cached pair itself otherwise.
\<close>

definition memory_kv_rule :: "'t tf \<Rightarrow> 't \<Rightarrow> 't kv option \<Rightarrow> 't kv \<Rightarrow> bool" where
  "memory_kv_rule lib mem c kv =
     (case c of
        None \<Rightarrow> time_dim lib (fst kv) = shape lib mem ! 1 \<and> time_dim lib (snd kv) = shape lib mem ! 1
      | Some (ck, cv) \<Rightarrow>
          if time_dim lib ck = 0
          then time_dim lib (fst kv) = shape lib mem ! 1 \<and> time_dim lib (snd kv) = shape lib mem ! 1
          else kv = (ck, cv))"

section \<open>Collaborators on shapes\<close>

text \<open>
  Modelled from the spec: an instance of the collaborators in which a tensor is its shape
  and nothing else, used to run the decoder on concrete inputs. Every operation returns
  the shape that the spec gives to its result and fails on a rank or a batch size that
  does not fit.
\<close>

definition shape_tf :: "nat list tf" where
  "shape_tf =
     \<lparr> shape = (\<lambda>x. x),
       zeros = (\<lambda>s d. s),
       expand_dims = (\<lambda>x axis. if axis \<le> length x then Some (take axis x @ [1] @ drop axis x)
                               else None),
       squeeze = (\<lambda>x axis. if axis < length x \<and> x ! axis = 1
                           then Some (take axis x @ drop (Suc axis) x) else None),
       mul_sqrt = (\<lambda>x n. Some x),
       first_head = (\<lambda>a. if 2 \<le> length a \<and> 0 < a ! 1 then Some (take 1 a @ drop 2 a) else None),
       sequence_mask = (\<lambda>l maxlen. Some (l @ [maxlen])),
       future_mask = (\<lambda>l n. if length l = 1 then Some (l @ [n, n]) else None),
       common_dropout = (\<lambda>x r tr. Some x) \<rparr>"

definition shape_self_attention :: "nat \<Rightarrow> nat \<Rightarrow> nat list self_attention_fn" where
  "shape_self_attention h d x m c tr =
     (if length x \<noteq> 3 then None
      else
        (case c of
           None \<Rightarrow> Some (x, ([x ! 0, h, x ! 1, d], [x ! 0, h, x ! 1, d]))
         | Some (ck, cv) \<Rightarrow>
             if length ck = 4 \<and> length cv = 4 \<and> ck ! 0 = x ! 0 \<and> cv ! 0 = x ! 0
             then Some (x, ([x ! 0, h, ck ! 2 + x ! 1, d], [x ! 0, h, cv ! 2 + x ! 1, d]))
             else None))"

definition shape_attention :: "nat \<Rightarrow> nat \<Rightarrow> bool \<Rightarrow> nat list attention_fn" where
  "shape_attention h d ra x mem m c tr =
     (if length x \<noteq> 3 \<or> length mem \<noteq> 3 \<or> mem ! 0 \<noteq> x ! 0 then None
      else
        (let computed = ([x ! 0, h, mem ! 1, d], [x ! 0, h, mem ! 1, d]);
             kv = (case c of
                     None \<Rightarrow> Some computed
                   | Some (ck, cv) \<Rightarrow>
                       if length ck = 4 \<and> length cv = 4
                       then (if ck ! 2 = 0 then Some computed else Some (ck, cv))
                       else None)
         in case kv of
              None \<Rightarrow> None
            | Some (k, v) \<Rightarrow>
                if ra then Some (Result3 x (k, v) [x ! 0, h, x ! 1, k ! 2])
                else Some (Result2 x (k, v))))"

definition shape_classes :: "nat list classes" where
  "shape_classes =
     \<lparr> new_self_attention = (\<lambda>i h u a dr. shape_self_attention h (u div h)),
       new_attention = (\<lambda>i j h u a ra dr. shape_attention h (u div h) ra),
       new_ffn = (\<lambda>i n u fd dr x tr. Some x),
       new_layer_norm = (\<lambda>x. Some x) \<rparr>"

definition shape_position_encoder :: "nat list \<Rightarrow> int option \<Rightarrow> nat list option" where
  "shape_position_encoder x p = (if length x = 3 then Some x else None)"

text \<open>An output layer onto a vocabulary of \<open>v\<close> words: the last dimension becomes \<open>v\<close>.\<close>

definition shape_output_layer :: "nat \<Rightarrow> nat list \<Rightarrow> nat list option" where
  "shape_output_layer v x = (if x = [] then None else Some (butlast x @ [v]))"

text \<open>
  Two decoders on shapes, of 2 layers, 4 units and 2 heads, with a vocabulary of 7 words:
  one built for one source, one built for two.
\<close>

definition decoder_one_source :: "nat list decoder" where
  "decoder_one_source =
     SelfAttentionDecoder shape_classes 2 4 2 8 (1 / 10) (1 / 10) (1 / 10)
       (Some shape_position_encoder) 1 (shape_output_layer 7)"

definition decoder_two_sources :: "nat list decoder" where
  "decoder_two_sources =
     SelfAttentionDecoder shape_classes 2 4 2 8 (1 / 10) (1 / 10) (1 / 10)
       (Some shape_position_encoder) 2 (shape_output_layer 7)"

section \<open>Basic facts\<close>

lemma bindE_Inl [simp]: "bindE (Inl e) f = Inl e"
  by (simp add: bindE_def)

lemma bindE_Inr [simp]: "bindE (Inr x) f = f x"
  by (simp add: bindE_def)

lemma bindE_eq_Inr: "(bindE m f = Inr y) = (\<exists>x. m = Inr x \<and> f x = Inr y)"
  by (cases m) simp_all

lemma bindE_eq_Inl: "(bindE m f = Inl e) = (m = Inl e \<or> (\<exists>x. m = Inr x \<and> f x = Inl e))"
  by (cases m) simp_all

lemma collab_eq_Inr [simp]: "(collab r = Inr x) = (r = Some x)"
  by (cases r) (simp_all add: collab_def)

lemma collab_eq_Inl [simp]: "(collab r = Inl e) = (r = None \<and> e = CollaboratorError)"
  by (cases r) (auto simp: collab_def)

lemma collab_Some [simp]: "collab (Some x) = Inr x"
  by (simp add: collab_def)

lemma collab_None [simp]: "collab None = Inl CollaboratorError"
  by (simp add: collab_def)

lemma memory_masks_not_sampling: "memory_masks lib ps \<noteq> Inl ScheduledSamplingNotSupported"
  by (induction ps) (auto simp: bindE_eq_Inl dim1_def split: if_splits)

lemma prepare_memory_mask_not_sampling:
  "prepare_memory_mask lib mem msl \<noteq> Inl ScheduledSamplingNotSupported"
  by (auto simp: prepare_memory_mask_def Let_def bindE_eq_Inl memory_masks_not_sampling
        split: option.splits)

lemma process_inputs_not_sampling:
  "process_inputs lib self x st tr \<noteq> Inl ScheduledSamplingNotSupported"
  by (auto simp: process_inputs_def bindE_eq_Inl split: option.splits)

lemma query_mask_not_sampling: "query_mask lib x sl \<noteq> Inl ScheduledSamplingNotSupported"
  by (auto simp: query_mask_def bindE_eq_Inl dim1_def split: option.splits if_splits)

lemma attend_not_sampling:
  "attend lib tr zs outputs att mkv \<noteq> Inl ScheduledSamplingNotSupported"
proof (induction zs arbitrary: outputs att mkv)
  case Nil
  show ?case by simp
next
  case (Cons z zs)
  obtain layer mem mem_mask mem_cache where z: "z = (layer, mem, mem_mask, mem_cache)"
    by (cases z) auto
  show ?case
  proof (cases "layer outputs mem (Some mem_mask) mem_cache tr")
    case None
    then show ?thesis by (simp add: z)
  next
    case (Some r)
    then show ?thesis
      by (cases r; cases "first_head lib (case r of Result3 _ _ a \<Rightarrow> a | Result2 y _ \<Rightarrow> y)")
         (simp_all add: z Cons.IH)
  qed
qed

lemma call_not_sampling:
  "call lib layer x msk mem mm c tr \<noteq> Inl ScheduledSamplingNotSupported"
  by (auto simp: call_def Let_def bindE_eq_Inl attend_not_sampling split: option.splits prod.splits)

lemma run_layers_not_sampling:
  "run_layers lib ls i msk mem mm c tr x nc att \<noteq> Inl ScheduledSamplingNotSupported"
  by (induction ls arbitrary: i x nc att)
     (auto simp: bindE_eq_Inl call_not_sampling split: option.splits if_splits)

lemma run_not_sampling:
  "run lib self x sl c mem msl st tr \<noteq> Inl ScheduledSamplingNotSupported"
  by (auto simp: run_def Let_def bindE_eq_Inl query_mask_not_sampling
        prepare_memory_mask_not_sampling process_inputs_not_sampling
        run_layers_not_sampling split: option.splits)

lemmas shape_eval =
  decoder_one_source_def decoder_two_sources_def SelfAttentionDecoder_def
  SelfAttentionDecoderLayer_def shape_classes_def shape_tf_def shape_self_attention_def
  shape_attention_def shape_position_encoder_def shape_output_layer_def
  forward_def step_def run_def process_inputs_def query_mask_def prepare_memory_mask_def
  as_tuple_def seq_items_def dim1_def call_def get_initial_state_def Let_def upt_rec

section \<open>Scheduled sampling\<close>

text \<open>
  C3. \<^verbatim>\<open>forward\<close> raises the error of scheduled sampling exactly when
  \<^verbatim>\<open>sampling_probability\<close> is not \<^verbatim>\<open>None\<close>: with a probability the result is that error
  and nothing else (no output, no state, no attention), whatever the other arguments and
  the collaborators are; with \<^verbatim>\<open>None\<close> that error is never the result.
\<close>

theorem forward_sampling_probability:
  "(forward lib self inputs sequence_length initial_state memory memory_sequence_length
      input_fn sampling_probability training = Inl ScheduledSamplingNotSupported)
   = (\<exists>p. sampling_probability = Some p)"
  by (auto simp: forward_def bindE_eq_Inl run_not_sampling)

theorem forward_sampling_probability_witness:
  "forward shape_tf decoder_one_source [2, 3, 4] (Some [2]) (None :: unit option)
     (Some (Bare [2, 5, 4])) (Some (Bare [2])) (None :: unit option) (Some (1 / 2 :: real)) None
   = Inl ScheduledSamplingNotSupported"
  unfolding forward_sampling_probability by blast

section \<open>Arguments that forward ignores\<close>

text \<open>
  C10. \<^verbatim>\<open>forward\<close> does not read \<^verbatim>\<open>initial_state\<close> and \<^verbatim>\<open>input_fn\<close>: two calls that
  differ in these two arguments only return the same result (the same logits, cache and
  attention, or the same error), and a call with an \<^verbatim>\<open>input_fn\<close> and no sampling
  probability does not raise the error of scheduled sampling.
\<close>

theorem forward_ignores_initial_state_and_input_fn:
  "forward lib self inputs sequence_length initial_state memory memory_sequence_length
      input_fn sampling_probability training
   = forward lib self inputs sequence_length initial_state' memory memory_sequence_length
      input_fn' sampling_probability training
   \<and> forward lib self inputs sequence_length initial_state memory memory_sequence_length
      (Some f) None training \<noteq> Inl ScheduledSamplingNotSupported"
  by (auto simp: forward_def bindE_eq_Inl run_not_sampling)

section \<open>Memory without lengths\<close>

text \<open>
  When a memory is given and \<^verbatim>\<open>memory_sequence_length\<close> is not, \<^verbatim>\<open>memory_mask\<close> stays
  \<^verbatim>\<open>None\<close> and every layer stops at \<^verbatim>\<open>zip(self.attention, memory, memory_mask, memory_cache)\<close>;
  with no layer at all, \<^verbatim>\<open>_run\<close> stops at its unbound \<^verbatim>\<open>attention\<close>. So \<^verbatim>\<open>_run\<close> never
  returns, whatever the collaborators do.
\<close>

lemma call_memory_without_mask: "\<exists>e. call lib layer x msk (Some mems) None c tr = Inl e"
  by (cases "self_attention layer x msk
                (self_kv (case c of None \<Rightarrow> \<lparr>self_kv = None, memory_kv = None\<rparr> | Some c' \<Rightarrow> c')) tr")
     (auto simp: call_def Let_def)

lemma run_layers_memory_without_mask:
  "ls \<noteq> [] \<Longrightarrow> \<exists>e. run_layers lib ls i msk (Some mems) None c tr x nc att = Inl e"
proof (cases ls)
  case Nil
  assume "ls \<noteq> []"
  with Nil show ?thesis by simp
next
  case (Cons l rest)
  show ?thesis
  proof (cases "case c of None \<Rightarrow> Inr None
            | Some c' \<Rightarrow> if i < length c' then Inr (Some (c' ! i)) else Inl IndexError")
    case (Inl a)
    then show ?thesis by (simp add: Cons)
  next
    case (Inr ci)
    obtain e' where "call lib l x msk (Some mems) None ci tr = Inl e'"
      using call_memory_without_mask [of lib l x msk mems ci tr] by auto
    with Inr show ?thesis by (simp add: Cons)
  qed
qed

lemma run_memory_without_lengths:
  "\<exists>e. run lib self x sl c (Some memory) None st tr = Inl e"
proof (cases "process_inputs lib self x st tr")
  case (Inl e)
  then show ?thesis by (simp add: run_def)
next
  case (Inr x')
  note px = Inr
  show ?thesis
  proof (cases "query_mask lib x' sl")
    case (Inl e)
    with px show ?thesis by (simp add: run_def)
  next
    case (Inr m)
    obtain mems where mems: "as_tuple (Some memory) = Some mems"
      by (simp add: as_tuple_def)
    show ?thesis
    proof (cases "layers self")
      case Nil
      with px Inr mems show ?thesis
        by (cases "layer_norm self x'") (simp_all add: run_def prepare_memory_mask_def)
    next
      case (Cons l ls)
      then have "layers self \<noteq> []" by simp
      from run_layers_memory_without_mask [OF this, of lib 0 m mems c tr x' "[]" None]
      obtain e where
        "run_layers lib (layers self) 0 m (Some mems) None c tr x' [] None = Inl e"
        by auto
      with px Inr mems show ?thesis
        by (simp add: run_def prepare_memory_mask_def)
    qed
  qed
qed

lemma forward_memory_without_lengths:
  "\<exists>e. forward lib self x sl init (Some memory) None fn p tr = Inl e"
  using run_memory_without_lengths [of lib self x sl None memory None tr]
  by (auto simp: forward_def)

lemma step_memory_without_lengths:
  "\<exists>e. step lib self x t state (Some memory) None tr = Inl e"
proof (cases "expand_dims lib x 1")
  case None
  then show ?thesis by (simp add: step_def)
next
  case (Some x1)
  then show ?thesis
    using run_memory_without_lengths [of lib self x1 None state memory "Some t" tr]
    by (auto simp: step_def)
qed

text \<open>
  C7. The claim is that a call with a memory and without \<^verbatim>\<open>memory_sequence_length\<close>
  completes. On the decoder of one source, \<^verbatim>\<open>forward\<close> with inputs [2, 3, 4], a memory
  [2, 5, 4] and no lengths raises \<^verbatim>\<open>TypeError\<close>.
\<close>

theorem forward_memory_without_lengths_raises:
  "forward shape_tf decoder_one_source [2, 3, 4] None (None :: unit option)
     (Some (Bare [2, 5, 4])) None (None :: unit option) (None :: unit option) None
   = Inl TypeError"
  by (simp add: shape_eval)

section \<open>The initial state\<close>

lemma initial_state_layers_replicate:
  "0 < num_heads self \<Longrightarrow>
   initial_state_layers lib self b dt ls =
     Inr (replicate (length ls)
       \<lparr>self_kv = Some (zeros lib [b, num_heads self, 0, num_units self div num_heads self] dt,
                        zeros lib [b, num_heads self, 0, num_units self div num_heads self] dt),
        memory_kv = Some (replicate (num_sources self)
                       (zeros lib [b, num_heads self, 0, num_units self div num_heads self] dt,
                        zeros lib [b, num_heads self, 0, num_units self div num_heads self] dt))\<rparr>)"
  by (induction ls) (simp_all add: Let_def map_replicate_const)

lemma replicate_2: "replicate 2 x = [x, x]"
  by (simp add: numeral_2_eq_2)

text \<open>
  C4. For a decoder built by \<^verbatim>\<open>__init__\<close> with at least one head, and every batch size
  and dtype, \<^verbatim>\<open>_get_initial_state\<close> returns a cache of exactly \<open>n_layers\<close> entries; in each
  entry \<^verbatim>\<open>self_kv\<close> is a pair of \<^verbatim>\<open>tf.zeros\<close> arrays and \<^verbatim>\<open>memory_kv\<close> a list of exactly
  \<open>n_sources\<close> such pairs, every array of shape
  [batch_size, num_heads, 0, num_units // num_heads].
\<close>

theorem get_initial_state_shape:
  assumes "0 < n_heads"
    and "\<forall>s d. shape lib (zeros lib s d) = s"
  shows "get_initial_state lib
           (SelfAttentionDecoder cls n_layers n_units n_heads ffn_inner_dim dropout_rate
              attention_dropout ffn_dropout position_encoder_class n_sources out_layer)
           batch_size dt initial_state =
         Inr (replicate n_layers
           \<lparr>self_kv = Some (zeros lib [batch_size, n_heads, 0, n_units div n_heads] dt,
                            zeros lib [batch_size, n_heads, 0, n_units div n_heads] dt),
            memory_kv = Some (replicate n_sources
                           (zeros lib [batch_size, n_heads, 0, n_units div n_heads] dt,
                            zeros lib [batch_size, n_heads, 0, n_units div n_heads] dt))\<rparr>)
       \<and> shape lib (zeros lib [batch_size, n_heads, 0, n_units div n_heads] dt) =
           [batch_size, n_heads, 0, n_units div n_heads]"
  using assms
  by (simp add: get_initial_state_def initial_state_layers_replicate SelfAttentionDecoder_def)

theorem get_initial_state_shape_witness:
  "get_initial_state shape_tf decoder_one_source 3 Float32 (None :: unit option) =
     Inr [\<lparr>self_kv = Some ([3, 2, 0, 2], [3, 2, 0, 2]),
            memory_kv = Some [([3, 2, 0, 2], [3, 2, 0, 2])]\<rparr>,
          \<lparr>self_kv = Some ([3, 2, 0, 2], [3, 2, 0, 2]),
            memory_kv = Some [([3, 2, 0, 2], [3, 2, 0, 2])]\<rparr>]
   \<and> shape shape_tf (zeros shape_tf [3, 2, 0, 2] Float32) = [3, 2, 0, 2]"
proof -
  have h: "\<forall>s d. shape shape_tf (zeros shape_tf s d) = s"
    by (simp add: shape_tf_def)
  have n: "(0::nat) < 2" by simp
  show ?thesis
    using get_initial_state_shape [OF n h, of shape_classes 2 4 8 "1 / 10" "1 / 10" "1 / 10"
        "Some shape_position_encoder" 1 "shape_output_layer 7" 3 Float32 "None :: unit option"]
    by (simp add: decoder_one_source_def shape_tf_def replicate_2)
qed

section \<open>The number of sources\<close>

lemma memory_masks_length: "memory_masks lib ps = Inr ms \<Longrightarrow> length ms = length ps"
  by (induction ps arbitrary: ms) (auto simp: bindE_eq_Inr)

lemma attend_length:
  "attend lib tr zs outputs att mkv = Inr (outputs', att', mkv') \<Longrightarrow>
   length mkv' = length mkv + length zs"
proof (induction zs arbitrary: outputs att mkv)
  case Nil
  then show ?case by simp
next
  case (Cons z zs)
  obtain layer mem mem_mask mem_cache where z: "z = (layer, mem, mem_mask, mem_cache)"
    by (cases z) auto
  from Cons.prems obtain r where r: "layer outputs mem (Some mem_mask) mem_cache tr = Some r"
    and rest: "(case r of
         Result3 outputs' memory_kv_i a \<Rightarrow>
           bindE (collab (first_head lib a)) (\<lambda>a0.
             attend lib tr zs outputs' (Some a0) (mkv @ [memory_kv_i]))
       | Result2 outputs' memory_kv_i \<Rightarrow>
           attend lib tr zs outputs' att (mkv @ [memory_kv_i])) = Inr (outputs', att', mkv')"
    by (auto simp: z bindE_eq_Inr)
  show ?case
  proof (cases r)
    case (Result2 y c)
    with rest have "attend lib tr zs y att (mkv @ [c]) = Inr (outputs', att', mkv')" by simp
    from Cons.IH [OF this] show ?thesis by simp
  next
    case (Result3 y c a)
    with rest obtain a0 where
      "attend lib tr zs y (Some a0) (mkv @ [c]) = Inr (outputs', att', mkv')"
      by (auto simp: bindE_eq_Inr)
    from Cons.IH [OF this] show ?thesis by simp
  qed
qed

lemma call_memory_kv_length:
  assumes "call lib l x m (Some mems) (Some masks) c tr = Inr (y, lc, a)"
  shows "\<exists>kvs. memory_kv lc = Some kvs \<and>
           length kvs = min (length (attention l)) (min (length mems) (min (length masks)
             (case c of
                None \<Rightarrow> length (attention l)
              | Some c' \<Rightarrow> (case memory_kv c' of
                             None \<Rightarrow> length (attention l)
                           | Some cm \<Rightarrow> length cm))))"
  using assms
  by (auto simp: call_def Let_def bindE_eq_Inr dest!: attend_length
        split: option.splits prod.splits)

lemma run_layers_memory_kv_length:
  assumes "run_layers lib ls i m (Some mems) (Some masks) cache tr x nc att = Inr (x', nc', att')"
  shows "\<exists>new. nc' = nc @ new \<and> length new = length ls \<and>
           (\<forall>j < length ls. \<exists>kvs. memory_kv (new ! j) = Some kvs \<and>
              length kvs = min (length (attention (ls ! j))) (min (length mems) (min (length masks)
                (cached_sources cache (i + j) (length (attention (ls ! j)))))))"
  using assms
proof (induction ls arbitrary: i x nc att)
  case Nil
  then show ?case by simp
next
  case (Cons l ls)
  from Cons.prems obtain ci x1 lc a1 where
    ci: "(case cache of None \<Rightarrow> Inr None
          | Some c \<Rightarrow> if i < length c then Inr (Some (c ! i)) else Inl IndexError) = Inr ci"
    and c1: "call lib l x m (Some mems) (Some masks) ci tr = Inr (x1, lc, a1)"
    and rest: "run_layers lib ls (Suc i) m (Some mems) (Some masks) cache tr x1 (nc @ [lc]) (Some a1)
                 = Inr (x', nc', att')"
    by (auto simp: bindE_eq_Inr)
  from Cons.IH [OF rest] obtain new where new: "nc' = (nc @ [lc]) @ new" "length new = length ls"
    and tail: "\<forall>j < length ls. \<exists>kvs. memory_kv (new ! j) = Some kvs \<and>
              length kvs = min (length (attention (ls ! j))) (min (length mems) (min (length masks)
                (cached_sources cache (Suc i + j) (length (attention (ls ! j))))))"
    by blast
  have ci_eq: "(case ci of None \<Rightarrow> length (attention l)
              | Some c' \<Rightarrow> (case memory_kv c' of None \<Rightarrow> length (attention l)
                             | Some cm \<Rightarrow> length cm))
            = cached_sources cache i (length (attention l))"
    using ci by (auto simp: cached_sources_def split: option.splits if_splits)
  from call_memory_kv_length [OF c1] ci_eq
  have head: "\<exists>kvs. memory_kv lc = Some kvs \<and>
           length kvs = min (length (attention l)) (min (length mems) (min (length masks)
             (cached_sources cache i (length (attention l)))))"
    by simp
  have "\<forall>j < length (l # ls). \<exists>kvs. memory_kv ((lc # new) ! j) = Some kvs \<and>
              length kvs = min (length (attention ((l # ls) ! j))) (min (length mems) (min (length masks)
                (cached_sources cache (i + j) (length (attention ((l # ls) ! j))))))"
  proof (intro allI impI)
    fix j assume "j < length (l # ls)"
    then show "\<exists>kvs. memory_kv ((lc # new) ! j) = Some kvs \<and>
              length kvs = min (length (attention ((l # ls) ! j))) (min (length mems) (min (length masks)
                (cached_sources cache (i + j) (length (attention ((l # ls) ! j))))))"
      using head tail by (cases j) auto
  qed
  with new show ?case by (intro exI [of _ "lc # new"]) simp
qed

lemma run_layers_length:
  "run_layers lib ls i m mem mm cache tr x nc att = Inr (x', nc', att') \<Longrightarrow>
   length nc' = length nc + length ls"
  by (induction ls arbitrary: i x nc att) (auto simp: bindE_eq_Inr)


lemma prepare_memory_mask_length:
  "prepare_memory_mask lib (Some mems) (Some msl) = Inr mm \<Longrightarrow>
   \<exists>masks. mm = Some masks \<and> length masks = min (length mems) (length (seq_items msl))"
  by (auto simp: prepare_memory_mask_def Let_def bindE_eq_Inr dest!: memory_masks_length)

lemma layers_SelfAttentionDecoder:
  "layers (SelfAttentionDecoder cls n_layers n_units n_heads ffn_inner_dim dropout_rate
      attention_dropout ffn_dropout position_encoder_class n_sources out_layer) =
   map (\<lambda>i. SelfAttentionDecoderLayer cls i n_units n_heads ffn_inner_dim
                n_sources dropout_rate attention_dropout ffn_dropout) [0..<n_layers]"
  by (simp add: SelfAttentionDecoder_def)

lemma length_attention_SelfAttentionDecoderLayer:
  "length (attention (SelfAttentionDecoderLayer cls i n_units n_heads ffn_inner_dim
      n_sources dropout_rate attention_dropout ffn_dropout)) = n_sources"
  by (simp add: SelfAttentionDecoderLayer_def)

section \<open>The query mask\<close>

lemma call_deaf_to_mask:
  "call lib (l\<lparr>self_attention := (\<lambda>x given c tr. self_attention l x m c tr)\<rparr>) x m mem mm c tr
   = call lib l x m mem mm c tr"
  by (simp add: call_def Let_def cong: option.case_cong)

lemma run_layers_deaf_to_mask:
  "run_layers lib (map (\<lambda>l. l\<lparr>self_attention := (\<lambda>x given c tr. self_attention l x m c tr)\<rparr>) ls)
     i m mem mm c tr x nc att
   = run_layers lib ls i m mem mm c tr x nc att"
  by (induction ls arbitrary: i x nc att) (simp_all add: call_deaf_to_mask)

lemma process_inputs_with_mask:
  "process_inputs lib (with_mask m self) x st tr = process_inputs lib self x st tr"
  by (simp add: process_inputs_def with_mask_def)

section \<open>The collaborators on shapes meet their descriptions\<close>

lemma tf_spec_shape_tf: "tf_spec shape_tf"
  by (simp add: tf_spec_def shape_tf_def)

lemma self_attention_spec_shape: "self_attention_spec shape_tf h d (shape_self_attention h d)"
  by (auto simp: self_attention_spec_def shape_self_attention_def shape_tf_def
        split: option.splits if_splits)

lemma attention_spec_shape: "attention_spec shape_tf h d ra (shape_attention h d ra)"
  by (auto simp: attention_spec_def shape_attention_def shape_tf_def Let_def
        split: option.splits if_splits)

lemma classes_spec_shape: "classes_spec shape_tf shape_classes"
  by (simp add: classes_spec_def shape_classes_def self_attention_spec_shape attention_spec_shape)

lemma decoder_spec_SelfAttentionDecoder:
  assumes "classes_spec lib cls"
    and "\<forall>encoder x p y. position_encoder_class = Some encoder \<longrightarrow> encoder x p = Some y \<longrightarrow>
           shape lib y = shape lib x"
  shows "decoder_spec lib
           (SelfAttentionDecoder cls n_layers n_units n_heads ffn_inner_dim dropout_rate
              attention_dropout ffn_dropout position_encoder_class n_sources out_layer)"
  using assms
  by (auto simp: decoder_spec_def SelfAttentionDecoder_def SelfAttentionDecoderLayer_def
        layer_spec_def classes_spec_def list_all_iff)

lemma decoder_spec_one_source: "decoder_spec shape_tf decoder_one_source"
  unfolding decoder_one_source_def
  by (rule decoder_spec_SelfAttentionDecoder [OF classes_spec_shape])
     (auto simp: shape_position_encoder_def shape_tf_def split: if_splits)

lemma decoder_spec_two_sources: "decoder_spec shape_tf decoder_two_sources"
  unfolding decoder_two_sources_def
  by (rule decoder_spec_SelfAttentionDecoder [OF classes_spec_shape])
     (auto simp: shape_position_encoder_def shape_tf_def split: if_splits)

section \<open>Shapes through the decoder\<close>

lemma process_inputs_shape:
  assumes "tf_spec lib" and "decoder_spec lib self"
    and "process_inputs lib self x st tr = Inr y"
  shows "shape lib y = shape lib x"
proof -
  from assms(3) obtain x1 x2 where
    a: "mul_sqrt lib x (num_units self) = Some x1"
    and b: "(case position_encoder self of None \<Rightarrow> Inr x1
             | Some encoder \<Rightarrow> collab (encoder x1 (case st of None \<Rightarrow> None | Some s \<Rightarrow> Some (s + 1))))
            = Inr x2"
    and c: "common_dropout lib x2 (dropout self) tr = Some y"
    by (auto simp: process_inputs_def bindE_eq_Inr)
  from a assms(1) have 1: "shape lib x1 = shape lib x" by (simp add: tf_spec_def)
  from b assms(2) have 2: "shape lib x2 = shape lib x1"
    by (auto simp: decoder_spec_def split: option.splits)
  from c assms(1) have 3: "shape lib y = shape lib x2" by (simp add: tf_spec_def)
  from 1 2 3 show ?thesis by simp
qed

lemma attend_shape:
  assumes "\<forall>z \<in> set zs. attention_spec lib h d ra (fst z)"
    and "attend lib tr zs x att mkv = Inr (x', att', mkv')"
  shows "shape lib x' = shape lib x"
  using assms
proof (induction zs arbitrary: x att mkv)
  case Nil
  then show ?case by simp
next
  case (Cons z zs)
  obtain f mem mem_mask mem_cache where z: "z = (f, mem, mem_mask, mem_cache)"
    by (cases z) auto
  from Cons.prems(2) obtain r where r: "f x mem (Some mem_mask) mem_cache tr = Some r"
    and rest: "(case r of
         Result3 outputs' memory_kv_i a \<Rightarrow>
           bindE (collab (first_head lib a)) (\<lambda>a0.
             attend lib tr zs outputs' (Some a0) (mkv @ [memory_kv_i]))
       | Result2 outputs' memory_kv_i \<Rightarrow>
           attend lib tr zs outputs' att (mkv @ [memory_kv_i])) = Inr (x', att', mkv')"
    by (auto simp: z bindE_eq_Inr)
  from Cons.prems(1) have sp: "attention_spec lib h d ra f" by (simp add: z)
  with r have y: "shape lib (result_outputs r) = shape lib x"
    unfolding attention_spec_def by blast
  from Cons.prems(1) have tl: "\<forall>z \<in> set zs. attention_spec lib h d ra (fst z)" by simp
  show ?case
  proof (cases r)
    case (Result2 y c)
    with rest have "attend lib tr zs y att (mkv @ [c]) = Inr (x', att', mkv')" by simp
    from Cons.IH [OF tl this] y Result2 show ?thesis by simp
  next
    case (Result3 y c a)
    with rest obtain a0 where
      "attend lib tr zs y (Some a0) (mkv @ [c]) = Inr (x', att', mkv')"
      by (auto simp: bindE_eq_Inr)
    from Cons.IH [OF tl this] y Result3 show ?thesis by simp
  qed
qed

lemma zip_attention_spec:
  assumes "list_all (attention_spec lib h d ra) fs"
  shows "\<forall>z \<in> set (zip fs ys). attention_spec lib h d ra (fst z)"
  using assms by (auto simp: list_all_iff dest: set_zip_leftD)

lemma call_shape:
  assumes "layer_spec lib h d n l"
    and "call lib l x m mem mm c tr = Inr (y, lc, a)"
  shows "shape lib y = shape lib x \<and> length (shape lib x) = 3"
proof -
  let ?c = "case c of None \<Rightarrow> \<lparr>self_kv = None, memory_kv = None\<rparr> | Some c' \<Rightarrow> c'"
  from assms(2) obtain x1 skv x2 att2 mkv where
    sa: "self_attention l x m (self_kv ?c) tr = Some (x1, skv)"
    and mid: "(case mem of
               None \<Rightarrow> Inr (x1, None, [])
             | Some mems \<Rightarrow>
                 (case mm of
                       None \<Rightarrow> Inl TypeError
                     | Some masks \<Rightarrow>
                         attend lib tr
                           (zip (attention l) (zip mems (zip masks
                              (case memory_kv ?c of
                                 None \<Rightarrow> replicate (length (attention l)) None
                               | Some c' \<Rightarrow> map Some c'))))
                           x1 None [])) = Inr (x2, att2, mkv)"
    and ff: "ffn l x2 tr = Some y"
    by (auto simp: call_def Let_def bindE_eq_Inr cong: option.case_cong)
  from assms(1) have sas: "self_attention_spec lib h d (self_attention l)"
    and ats: "list_all (attention_spec lib h d (n = 1)) (attention l)"
    and ffs: "\<forall>x tr y. ffn l x tr = Some y \<longrightarrow> shape lib y = shape lib x"
    by (simp_all add: layer_spec_def)
  obtain k v where skv: "skv = (k, v)" by (cases skv)
  from sas sa [unfolded skv] have 1: "length (shape lib x) = 3" "shape lib x1 = shape lib x"
    unfolding self_attention_spec_def by blast+
  have 2: "shape lib x2 = shape lib x1"
  proof (cases mem)
    case None
    with mid show ?thesis by simp
  next
    case (Some mems)
    with mid obtain masks where mm: "mm = Some masks" by (cases mm) auto
    from mid Some mm attend_shape [OF zip_attention_spec [OF ats]]
    show ?thesis by auto
  qed
  from ffs ff have 3: "shape lib y = shape lib x2" by blast
  from 1 2 3 show ?thesis by simp
qed

lemma run_layers_shape:
  assumes "list_all (layer_spec lib h d n) ls"
    and "run_layers lib ls i m mem mm c tr x nc att = Inr (x', nc', att')"
  shows "shape lib x' = shape lib x"
  using assms
proof (induction ls arbitrary: i x nc att)
  case Nil
  then show ?case by simp
next
  case (Cons l ls)
  from Cons.prems(2) obtain ci x1 lc a1 where
    c1: "call lib l x m mem mm ci tr = Inr (x1, lc, a1)"
    and rest: "run_layers lib ls (Suc i) m mem mm c tr x1 (nc @ [lc]) (Some a1) = Inr (x', nc', att')"
    by (auto simp: bindE_eq_Inr)
  from Cons.prems(1) have l: "layer_spec lib h d n l" and ls: "list_all (layer_spec lib h d n) ls"
    by simp_all
  from call_shape [OF l c1] Cons.IH [OF ls rest] show ?case by simp
qed

lemma run_shape:
  assumes "tf_spec lib" and "decoder_spec lib self"
    and "run lib self x sl c mem msl st tr = Inr (y, nc, a)"
  shows "shape lib y = shape lib x"
proof -
  from assms(3) obtain x1 m mm x2 nc2 a2 where
    p: "process_inputs lib self x st tr = Inr x1"
    and rl: "run_layers lib (layers self) 0 m (as_tuple mem) mm c tr x1 [] None = Inr (x2, nc2, a2)"
    and ln: "layer_norm self x2 = Some y"
    by (auto simp: run_def Let_def bindE_eq_Inr split: option.splits)
  from assms(2) have ls: "list_all (layer_spec lib (num_heads self)
        (num_units self div num_heads self) (num_sources self)) (layers self)"
    and lns: "\<forall>x y. layer_norm self x = Some y \<longrightarrow> shape lib y = shape lib x"
    by (simp_all add: decoder_spec_def)
  from process_inputs_shape [OF assms(1,2) p] run_layers_shape [OF ls rl] lns ln
  show ?thesis by simp
qed

section \<open>One step\<close>

lemma run_at_position:
  "run lib (at_position (Some (t + 1)) self) x sl c mem msl any_step tr
   = run lib self x sl c mem msl (Some t) tr"
  by (cases "position_encoder self") (simp_all add: run_def process_inputs_def at_position_def)

lemma step_one_source:
  "step shape_tf decoder_one_source [2, 4] 0 None (Some (Bare [2, 5, 4])) (Some (Bare [2])) None
   = Inr ([2, 4],
          [\<lparr>self_kv = Some ([2, 2, 1, 2], [2, 2, 1, 2]),
             memory_kv = Some [([2, 2, 5, 2], [2, 2, 5, 2])]\<rparr>,
           \<lparr>self_kv = Some ([2, 2, 1, 2], [2, 2, 1, 2]),
             memory_kv = Some [([2, 2, 5, 2], [2, 2, 5, 2])]\<rparr>],
          Some [2, 5])"
  by (simp add: shape_eval)

section \<open>The attention that is returned\<close>

lemma attention_specD:
  assumes "attention_spec lib h d ra f" and "f x mem m c tr = Some r"
  shows "length (shape lib x) = 3"
    and "shape lib (result_outputs r) = shape lib x"
    and "(case c of
           None \<Rightarrow>
             shape lib (fst (result_kv r)) = [shape lib x ! 0, h, shape lib mem ! 1, d] \<and>
             shape lib (snd (result_kv r)) = [shape lib x ! 0, h, shape lib mem ! 1, d]
         | Some (ck, cv) \<Rightarrow>
             length (shape lib ck) = 4 \<and> length (shape lib cv) = 4 \<and>
             (if shape lib ck ! 2 = 0
              then shape lib (fst (result_kv r)) = [shape lib x ! 0, h, shape lib mem ! 1, d] \<and>
                   shape lib (snd (result_kv r)) = [shape lib x ! 0, h, shape lib mem ! 1, d]
              else result_kv r = (ck, cv)))"
    and "(case result_attention r of
           None \<Rightarrow> \<not> ra
         | Some a \<Rightarrow>
             ra \<and> shape lib a =
               [shape lib x ! 0, h, shape lib x ! 1, shape lib (fst (result_kv r)) ! 2])"
proof -
  note s = assms(1) [unfolded attention_spec_def, rule_format, OF assms(2)]
  show "length (shape lib x) = 3"
    by (rule s [THEN conjunct1])
  show "shape lib (result_outputs r) = shape lib x"
    by (rule s [THEN conjunct2, THEN conjunct2, THEN conjunct1])
  show "(case c of
           None \<Rightarrow>
             shape lib (fst (result_kv r)) = [shape lib x ! 0, h, shape lib mem ! 1, d] \<and>
             shape lib (snd (result_kv r)) = [shape lib x ! 0, h, shape lib mem ! 1, d]
         | Some (ck, cv) \<Rightarrow>
             length (shape lib ck) = 4 \<and> length (shape lib cv) = 4 \<and>
             (if shape lib ck ! 2 = 0
              then shape lib (fst (result_kv r)) = [shape lib x ! 0, h, shape lib mem ! 1, d] \<and>
                   shape lib (snd (result_kv r)) = [shape lib x ! 0, h, shape lib mem ! 1, d]
              else result_kv r = (ck, cv)))"
    by (rule s [THEN conjunct2, THEN conjunct2, THEN conjunct2, THEN conjunct1])
  show "(case result_attention r of
           None \<Rightarrow> \<not> ra
         | Some a \<Rightarrow>
             ra \<and> shape lib a =
               [shape lib x ! 0, h, shape lib x ! 1, shape lib (fst (result_kv r)) ! 2])"
    by (rule s [THEN conjunct2, THEN conjunct2, THEN conjunct2, THEN conjunct2])
qed

lemma attention_spec_no_attention:
  assumes "attention_spec lib h d False f" and "f x mem m c tr = Some r"
  shows "result_attention r = None"
  using attention_specD(4) [OF assms] by (cases "result_attention r") simp_all

lemma attention_spec_kv_rule:
  assumes "attention_spec lib h d ra f" and "f x mem m c tr = Some r"
  shows "memory_kv_rule lib mem c (result_kv r)"
  using attention_specD(3) [OF assms]
  by (cases c) (auto simp: memory_kv_rule_def time_dim_def split: if_splits)

lemma attend_without_attention:
  assumes "\<forall>z \<in> set zs. attention_spec lib h d False (fst z)"
    and "attend lib tr zs x att mkv = Inr (x', att', mkv')"
  shows "att' = att"
  using assms
proof (induction zs arbitrary: x att mkv)
  case Nil
  then show ?case by simp
next
  case (Cons z zs)
  obtain f mem mem_mask mem_cache where z: "z = (f, mem, mem_mask, mem_cache)"
    by (cases z) auto
  from Cons.prems(2) obtain r where r: "f x mem (Some mem_mask) mem_cache tr = Some r"
    and rest: "(case r of
         Result3 outputs' memory_kv_i a \<Rightarrow>
           bindE (collab (first_head lib a)) (\<lambda>a0.
             attend lib tr zs outputs' (Some a0) (mkv @ [memory_kv_i]))
       | Result2 outputs' memory_kv_i \<Rightarrow>
           attend lib tr zs outputs' att (mkv @ [memory_kv_i])) = Inr (x', att', mkv')"
    by (auto simp: z bindE_eq_Inr)
  from Cons.prems(1) have sp: "attention_spec lib h d False f" by (simp add: z)
  from attention_spec_no_attention [OF sp r] have none: "result_attention r = None" .
  from Cons.prems(1) have tl: "\<forall>z \<in> set zs. attention_spec lib h d False (fst z)" by simp
  show ?case
  proof (cases r)
    case (Result2 y c)
    with rest have "attend lib tr zs y att (mkv @ [c]) = Inr (x', att', mkv')" by simp
    from Cons.IH [OF tl this] show ?thesis .
  next
    case (Result3 y c a)
    with none show ?thesis by simp
  qed
qed

lemma call_InrE:
  assumes "call lib l x m mem mm c tr = Inr (y, lc, a)"
  obtains x1 skv x2 mkv where
    "self_attention l x m
       (self_kv (case c of None \<Rightarrow> \<lparr>self_kv = None, memory_kv = None\<rparr> | Some c' \<Rightarrow> c')) tr
     = Some (x1, skv)"
    and "(case mem of
            None \<Rightarrow> Inr (x1, None, [])
          | Some mems \<Rightarrow>
              (case mm of
                 None \<Rightarrow> Inl TypeError
               | Some masks \<Rightarrow>
                   attend lib tr
                     (zip (attention l) (zip mems (zip masks
                        (case memory_kv (case c of None \<Rightarrow> \<lparr>self_kv = None, memory_kv = None\<rparr>
                                         | Some c' \<Rightarrow> c') of
                           None \<Rightarrow> replicate (length (attention l)) None
                         | Some c' \<Rightarrow> map Some c'))))
                     x1 None [])) = Inr (x2, a, mkv)"
    and "ffn l x2 tr = Some y"
    and "lc = \<lparr>self_kv = Some skv, memory_kv = Some mkv\<rparr>"
  using assms
  by (auto simp: call_def Let_def bindE_eq_Inr cong: option.case_cong)

lemma call_without_memory:
  assumes "call lib l x m None mm c tr = Inr (y, lc, a)"
  shows "a = None \<and> memory_kv lc = Some []"
  using assms by (elim call_InrE) simp

lemma call_without_attention:
  assumes "layer_spec lib h d n l" and "n \<noteq> 1"
    and "call lib l x m mem mm c tr = Inr (y, lc, a)"
  shows "a = None"
proof (cases mem)
  case None
  with assms(3) show ?thesis by (simp add: call_without_memory)
next
  case (Some mems)
  from assms(1,2) have ats: "list_all (attention_spec lib h d False) (attention l)"
    by (simp add: layer_spec_def)
  from assms(3) obtain x1 skv x2 mkv where
    mid: "(case mm of
                 None \<Rightarrow> Inl TypeError
               | Some masks \<Rightarrow>
                   attend lib tr
                     (zip (attention l) (zip mems (zip masks
                        (case memory_kv (case c of None \<Rightarrow> \<lparr>self_kv = None, memory_kv = None\<rparr>
                                         | Some c' \<Rightarrow> c') of
                           None \<Rightarrow> replicate (length (attention l)) None
                         | Some c' \<Rightarrow> map Some c'))))
                     x1 None []) = Inr (x2, a, mkv)"
    by (elim call_InrE) (simp add: Some)
  then obtain masks where mm: "mm = Some masks" by (cases mm) simp_all
  from mid [unfolded mm] have
    "attend lib tr (zip (attention l) (zip mems (zip masks
        (case memory_kv (case c of None \<Rightarrow> \<lparr>self_kv = None, memory_kv = None\<rparr>
                         | Some c' \<Rightarrow> c') of
           None \<Rightarrow> replicate (length (attention l)) None
         | Some c' \<Rightarrow> map Some c')))) x1 None [] = Inr (x2, a, mkv)"
    by simp
  from attend_without_attention [OF zip_attention_spec [OF ats] this] show ?thesis .
qed

lemma run_layers_ConsE:
  assumes "run_layers lib (l # ls) i m mem mm c tr x nc att = Inr (x', nc', att')"
  obtains ci x1 lc a1 where
    "(case c of None \<Rightarrow> Inr None
      | Some c' \<Rightarrow> if i < length c' then Inr (Some (c' ! i)) else Inl IndexError) = Inr ci"
    and "call lib l x m mem mm ci tr = Inr (x1, lc, a1)"
    and "run_layers lib ls (Suc i) m mem mm c tr x1 (nc @ [lc]) (Some a1) = Inr (x', nc', att')"
  using assms by (auto simp: bindE_eq_Inr)

lemma run_layers_last_call:
  assumes "list_all (layer_spec lib h d n) ls" and "ls \<noteq> []"
    and "run_layers lib ls i m mem mm c tr x nc att = Inr (x', nc', att')"
  shows "\<exists>xin ci y lc a.
           call lib (last ls) xin m mem mm ci tr = Inr (y, lc, a) \<and> att' = Some a \<and>
           shape lib xin = shape lib x \<and> (c = None \<longrightarrow> ci = None)"
  using assms
proof (induction ls arbitrary: i x nc att)
  case Nil
  then show ?case by simp
next
  case (Cons l ls)
  from Cons.prems(3) obtain ci x1 lc a1 where
    ci: "(case c of None \<Rightarrow> Inr None
          | Some c' \<Rightarrow> if i < length c' then Inr (Some (c' ! i)) else Inl IndexError) = Inr ci"
    and c1: "call lib l x m mem mm ci tr = Inr (x1, lc, a1)"
    and rest: "run_layers lib ls (Suc i) m mem mm c tr x1 (nc @ [lc]) (Some a1) = Inr (x', nc', att')"
    by (rule run_layers_ConsE)
  from Cons.prems(1) have l: "layer_spec lib h d n l" and ls: "list_all (layer_spec lib h d n) ls"
    by simp_all
  from call_shape [OF l c1] have sx: "shape lib x1 = shape lib x" by simp
  show ?case
  proof (cases "ls = []")
    case True
    with rest have a: "att' = Some a1" by simp
    from ci have n: "c = None \<longrightarrow> ci = None" by (cases c) auto
    from c1 a n show ?thesis
      by (intro exI [of _ x] exI [of _ ci] exI [of _ x1] exI [of _ lc] exI [of _ a1])
         (simp add: True)
  next
    case False
    from Cons.IH [OF ls False rest] obtain xin ci' y' lc' a' where
      "call lib (last ls) xin m mem mm ci' tr = Inr (y', lc', a')" "att' = Some a'"
      "shape lib xin = shape lib x1" "c = None \<longrightarrow> ci' = None"
      by blast
    then show ?thesis
      by (intro exI [of _ xin] exI [of _ ci'] exI [of _ y'] exI [of _ lc'] exI [of _ a'])
         (simp add: False sx)
  qed
qed

lemma self_attention_specD:
  assumes "self_attention_spec lib h d f" and "f x m c tr = Some (y, (k, v))"
  shows "length (shape lib x) = 3"
    and "shape lib y = shape lib x"
    and "(case c of
           None \<Rightarrow>
             shape lib k = [shape lib x ! 0, h, shape lib x ! 1, d] \<and>
             shape lib v = [shape lib x ! 0, h, shape lib x ! 1, d]
         | Some (ck, cv) \<Rightarrow>
             length (shape lib ck) = 4 \<and> length (shape lib cv) = 4 \<and>
             shape lib k = [shape lib x ! 0, h, shape lib ck ! 2 + shape lib x ! 1, d] \<and>
             shape lib v = [shape lib x ! 0, h, shape lib cv ! 2 + shape lib x ! 1, d])"
proof -
  note s = assms(1) [unfolded self_attention_spec_def, rule_format, OF assms(2)]
  show "length (shape lib x) = 3"
    by (rule s [THEN conjunct1])
  show "shape lib y = shape lib x"
    by (rule s [THEN conjunct2, THEN conjunct1])
  show "(case c of
           None \<Rightarrow>
             shape lib k = [shape lib x ! 0, h, shape lib x ! 1, d] \<and>
             shape lib v = [shape lib x ! 0, h, shape lib x ! 1, d]
         | Some (ck, cv) \<Rightarrow>
             length (shape lib ck) = 4 \<and> length (shape lib cv) = 4 \<and>
             shape lib k = [shape lib x ! 0, h, shape lib ck ! 2 + shape lib x ! 1, d] \<and>
             shape lib v = [shape lib x ! 0, h, shape lib cv ! 2 + shape lib x ! 1, d])"
    by (rule s [THEN conjunct2, THEN conjunct2])
qed

lemma call_one_source_attention:
  assumes "tf_spec lib" and "layer_spec lib h d 1 l"
    and "mems \<noteq> []" and "masks \<noteq> []"
    and "call lib l x m (Some mems) (Some masks) None tr = Inr (y, lc, a)"
  shows "\<exists>a0 q y' kv w. a = Some a0 \<and>
           shape lib a0 = [shape lib x ! 0, shape lib x ! 1, shape lib (hd mems) ! 1] \<and>
           hd (attention l) q (hd mems) (Some (hd masks)) None tr = Some (Result3 y' kv w) \<and>
           first_head lib w = Some a0"
proof -
  from assms(2) have sas: "self_attention_spec lib h d (self_attention l)"
    and len: "length (attention l) = 1"
    and ats: "list_all (attention_spec lib h d True) (attention l)"
    by (simp_all add: layer_spec_def)
  from len obtain f where f: "attention l = [f]"
    by (cases "attention l") auto
  from assms(3) obtain m0 ms where mems: "mems = m0 # ms" by (cases mems) auto
  from assms(4) obtain k0 ks where masks: "masks = k0 # ks" by (cases masks) auto
  from assms(5) obtain x1 skv x2 mkv where
    sa: "self_attention l x m None tr = Some (x1, skv)"
    and at: "attend lib tr [(f, m0, k0, None)] x1 None [] = Inr (x2, a, mkv)"
    by (elim call_InrE) (simp add: f mems masks)
  from at obtain r where r: "f x1 m0 (Some k0) None tr = Some r"
    and rest: "(case r of
         Result3 outputs' memory_kv_i w \<Rightarrow>
           bindE (collab (first_head lib w)) (\<lambda>a0. Inr (outputs', Some a0, [memory_kv_i]))
       | Result2 outputs' memory_kv_i \<Rightarrow> Inr (outputs', None, [memory_kv_i]))
       = Inr (x2, a, mkv)"
    by (auto simp: bindE_eq_Inr)
  obtain sk sv where skv: "skv = (sk, sv)" by (cases skv)
  from self_attention_specD(2) [OF sas sa [unfolded skv]] have x1: "shape lib x1 = shape lib x" .
  from ats f have sp: "attention_spec lib h d True f" by simp
  from attention_specD(3) [OF sp r]
  have k: "shape lib (fst (result_kv r)) = [shape lib x1 ! 0, h, shape lib m0 ! 1, d]"
    by simp
  from attention_specD(4) [OF sp r] obtain w where
    w: "result_attention r = Some w"
      "shape lib w = [shape lib x1 ! 0, h, shape lib x1 ! 1, shape lib (fst (result_kv r)) ! 2]"
    by (cases "result_attention r") simp_all
  from w(1) obtain y' kv where r3: "r = Result3 y' kv w"
    by (cases r) simp_all
  from w(2) k have sw: "shape lib w = [shape lib x ! 0, h, shape lib x ! 1, shape lib m0 ! 1]"
    by (simp add: x1)
  from rest r3 obtain a0 where a0: "first_head lib w = Some a0" "a = Some a0"
    by (auto simp: bindE_eq_Inr)
  from assms(1) have
    "\<forall>a y. first_head lib a = Some y \<longrightarrow>
       2 \<le> length (shape lib a) \<and> 0 < shape lib a ! 1 \<and>
       shape lib y = take 1 (shape lib a) @ drop 2 (shape lib a)"
    by (simp add: tf_spec_def)
  from this [rule_format, OF a0(1)]
  have "shape lib a0 = take 1 (shape lib w) @ drop 2 (shape lib w)" by simp
  with sw have sa0: "shape lib a0 = [shape lib x ! 0, shape lib x ! 1, shape lib (hd mems) ! 1]"
    by (simp add: mems)
  from r r3 have "hd (attention l) x1 (hd mems) (Some (hd masks)) None tr = Some (Result3 y' kv w)"
    by (simp add: f mems masks)
  with a0 sa0 show ?thesis
    by (intro exI [of _ a0] exI [of _ x1] exI [of _ y'] exI [of _ kv] exI [of _ w]) simp
qed

lemma run_InrE:
  assumes "run lib self x sl c mem msl st tr = Inr (y, nc, a)"
  obtains x1 m mm x2 where
    "process_inputs lib self x st tr = Inr x1"
    and "query_mask lib x1 sl = Inr m"
    and "prepare_memory_mask lib (as_tuple mem) msl = Inr mm"
    and "run_layers lib (layers self) 0 m (as_tuple mem) mm c tr x1 [] None = Inr (x2, nc, Some a)"
    and "layer_norm self x2 = Some y"
  using assms
  by (auto simp: run_def Let_def bindE_eq_Inr split: option.splits)

lemma run_one_source:
  "run shape_tf decoder_one_source [2, 3, 4] (Some [2]) None (Some (Bare [2, 5, 4]))
     (Some (Bare [2])) None None
   = Inr ([2, 3, 4],
          [\<lparr>self_kv = Some ([2, 2, 3, 2], [2, 2, 3, 2]),
             memory_kv = Some [([2, 2, 5, 2], [2, 2, 5, 2])]\<rparr>,
           \<lparr>self_kv = Some ([2, 2, 3, 2], [2, 2, 3, 2]),
             memory_kv = Some [([2, 2, 5, 2], [2, 2, 5, 2])]\<rparr>],
          Some [2, 3, 5])"
  by (simp add: shape_eval)

section \<open>The growth of the cache\<close>

lemma attend_kv_rule:
  assumes "\<forall>z \<in> set zs. attention_spec lib h d ra (fst z)"
    and "attend lib tr zs x att mkv = Inr (x', att', mkv')"
  shows "\<exists>new. mkv' = mkv @ new \<and>
           list_all2 (\<lambda>z kv. memory_kv_rule lib (fst (snd z)) (snd (snd (snd z))) kv) zs new"
  using assms
proof (induction zs arbitrary: x att mkv)
  case Nil
  then show ?case by simp
next
  case (Cons z zs)
  obtain f mem mem_mask mem_cache where z: "z = (f, mem, mem_mask, mem_cache)"
    by (cases z) auto
  from Cons.prems(2) obtain r where r: "f x mem (Some mem_mask) mem_cache tr = Some r"
    and rest: "(case r of
         Result3 outputs' memory_kv_i a \<Rightarrow>
           bindE (collab (first_head lib a)) (\<lambda>a0.
             attend lib tr zs outputs' (Some a0) (mkv @ [memory_kv_i]))
       | Result2 outputs' memory_kv_i \<Rightarrow>
           attend lib tr zs outputs' att (mkv @ [memory_kv_i])) = Inr (x', att', mkv')"
    by (auto simp: z bindE_eq_Inr)
  from Cons.prems(1) have sp: "attention_spec lib h d ra f" by (simp add: z)
  from attention_spec_kv_rule [OF sp r] have rule: "memory_kv_rule lib mem mem_cache (result_kv r)" .
  from Cons.prems(1) have tl: "\<forall>z \<in> set zs. attention_spec lib h d ra (fst z)" by simp
  have "\<exists>y a'. attend lib tr zs y a' (mkv @ [result_kv r]) = Inr (x', att', mkv')"
  proof (cases r)
    case (Result2 y c)
    with rest show ?thesis by auto
  next
    case (Result3 y c a)
    with rest show ?thesis by (auto simp: bindE_eq_Inr)
  qed
  then obtain y a' where "attend lib tr zs y a' (mkv @ [result_kv r]) = Inr (x', att', mkv')"
    by blast
  from Cons.IH [OF tl this] obtain new where
    new: "mkv' = (mkv @ [result_kv r]) @ new"
      "list_all2 (\<lambda>z kv. memory_kv_rule lib (fst (snd z)) (snd (snd (snd z))) kv) zs new"
    by blast
  with rule show ?case
    by (intro exI [of _ "result_kv r # new"]) (simp add: z)
qed

lemma memory_kv_rule_times:
  assumes "memory_kv_rule lib mem (Some c) kv"
    and "time_dim lib (fst c) = 0 \<or>
         (time_dim lib (fst c) = shape lib mem ! 1 \<and> time_dim lib (snd c) = shape lib mem ! 1)"
  shows "time_dim lib (fst kv) = shape lib mem ! 1 \<and> time_dim lib (snd kv) = shape lib mem ! 1"
  using assms by (cases c) (auto simp: memory_kv_rule_def split: if_splits)

lemma self_kv_timeE:
  assumes "self_kv_time lib n lc"
  obtains k v where "self_kv lc = Some (k, v)" "time_dim lib k = n" "time_dim lib v = n"
  using assms by (cases "self_kv lc") (auto simp: self_kv_time_def)

lemma cache_after_memory_kv:
  assumes "cache_after lib mems n lc"
  obtains cm where "memory_kv lc = Some cm"
    and "\<forall>j < length cm. time_dim lib (fst (cm ! j)) = 0 \<or>
           (j < length mems \<and> time_dim lib (fst (cm ! j)) = shape lib (mems ! j) ! 1 \<and>
            time_dim lib (snd (cm ! j)) = shape lib (mems ! j) ! 1)"
proof (cases "memory_kv lc")
  case None
  with assms show ?thesis
    by (simp add: cache_after_def memory_kv_empty_def memory_kv_time_def split: if_splits)
next
  case (Some cm)
  have "\<forall>j < length cm. time_dim lib (fst (cm ! j)) = 0 \<or>
           (j < length mems \<and> time_dim lib (fst (cm ! j)) = shape lib (mems ! j) ! 1 \<and>
            time_dim lib (snd (cm ! j)) = shape lib (mems ! j) ! 1)"
  proof (cases "n = 0")
    case True
    with assms Some have "list_all (\<lambda>kv. time_dim lib (fst kv) = 0 \<and> time_dim lib (snd kv) = 0) cm"
      by (simp add: cache_after_def memory_kv_empty_def)
    then show ?thesis by (simp add: list_all_length)
  next
    case False
    with assms Some have len: "length cm \<le> length mems"
      and all: "list_all (\<lambda>(kv, mem). time_dim lib (fst kv) = shape lib mem ! 1 \<and>
                                time_dim lib (snd kv) = shape lib mem ! 1) (zip cm mems)"
      by (simp_all add: cache_after_def memory_kv_time_def)
    show ?thesis
    proof (intro allI impI)
      fix j assume j: "j < length cm"
      with len have jm: "j < length mems" by simp
      from all j jm have "(\<lambda>(kv, mem). time_dim lib (fst kv) = shape lib mem ! 1 \<and>
                                time_dim lib (snd kv) = shape lib mem ! 1) (zip cm mems ! j)"
        by (simp add: list_all_length)
      with j jm show "time_dim lib (fst (cm ! j)) = 0 \<or>
           (j < length mems \<and> time_dim lib (fst (cm ! j)) = shape lib (mems ! j) ! 1 \<and>
            time_dim lib (snd (cm ! j)) = shape lib (mems ! j) ! 1)"
        by simp
    qed
  qed
  with Some that show ?thesis by blast
qed

lemma memory_kv_timeI:
  assumes "memory_kv lc = Some kvs" and "length kvs \<le> length mems"
    and "\<And>j. j < length kvs \<Longrightarrow>
           time_dim lib (fst (kvs ! j)) = shape lib (mems ! j) ! 1 \<and>
           time_dim lib (snd (kvs ! j)) = shape lib (mems ! j) ! 1"
  shows "memory_kv_time lib mems lc"
  using assms by (simp add: memory_kv_time_def list_all_length)

lemma call_cache_after:
  assumes l: "layer_spec lib h d n l"
    and c: "call lib l x m mem mm (Some ci) tr = Inr (y, lc, a)"
    and t: "shape lib x ! 1 = 1"
    and inv: "cache_after lib (case mem of None \<Rightarrow> [] | Some ms \<Rightarrow> ms) k ci"
  shows "cache_after lib (case mem of None \<Rightarrow> [] | Some ms \<Rightarrow> ms) (Suc k) lc"
proof -
  from l have sas: "self_attention_spec lib h d (self_attention l)"
    and ats: "list_all (attention_spec lib h d (n = 1)) (attention l)"
    by (simp_all add: layer_spec_def)
  from c obtain x1 skv x2 mkv where
    sa0: "self_attention l x m
       (self_kv (case Some ci of None \<Rightarrow> \<lparr>self_kv = None, memory_kv = None\<rparr> | Some c' \<Rightarrow> c')) tr
     = Some (x1, skv)"
    and mid0: "(case mem of
            None \<Rightarrow> Inr (x1, None, [])
          | Some mems \<Rightarrow>
              (case mm of
                 None \<Rightarrow> Inl TypeError
               | Some masks \<Rightarrow>
                   attend lib tr
                     (zip (attention l) (zip mems (zip masks
                        (case memory_kv (case Some ci of None \<Rightarrow> \<lparr>self_kv = None, memory_kv = None\<rparr>
                                         | Some c' \<Rightarrow> c') of
                           None \<Rightarrow> replicate (length (attention l)) None
                         | Some c' \<Rightarrow> map Some c'))))
                     x1 None [])) = Inr (x2, a, mkv)"
    and lc: "lc = \<lparr>self_kv = Some skv, memory_kv = Some mkv\<rparr>"
    by (rule call_InrE)
  from sa0 have sa: "self_attention l x m (self_kv ci) tr = Some (x1, skv)" by simp
  from mid0 have mid: "(case mem of
            None \<Rightarrow> Inr (x1, None, [])
          | Some mems \<Rightarrow>
              (case mm of
                 None \<Rightarrow> Inl TypeError
               | Some masks \<Rightarrow>
                   attend lib tr
                     (zip (attention l) (zip mems (zip masks
                        (case memory_kv ci of
                           None \<Rightarrow> replicate (length (attention l)) None
                         | Some c' \<Rightarrow> map Some c'))))
                     x1 None [])) = Inr (x2, a, mkv)"
    by (simp cong: option.case_cong)
  from inv have "self_kv_time lib k ci" by (simp add: cache_after_def)
  then obtain ck cv where ck: "self_kv ci = Some (ck, cv)"
    "time_dim lib ck = k" "time_dim lib cv = k"
    by (rule self_kv_timeE)
  obtain k' v' where skv: "skv = (k', v')" by (cases skv)
  from self_attention_specD(3) [OF sas sa [unfolded skv ck(1)]]
  have "shape lib k' = [shape lib x ! 0, h, shape lib ck ! 2 + shape lib x ! 1, d]"
    and "shape lib v' = [shape lib x ! 0, h, shape lib cv ! 2 + shape lib x ! 1, d]"
    by simp_all
  with ck(2,3) t have "time_dim lib k' = Suc k" "time_dim lib v' = Suc k"
    by (simp_all add: time_dim_def)
  then have self: "self_kv_time lib (Suc k) lc"
    by (simp add: self_kv_time_def lc skv)
  have memory: "memory_kv_time lib (case mem of None \<Rightarrow> [] | Some ms \<Rightarrow> ms) lc"
  proof (cases mem)
    case None
    with mid have "mkv = []" by simp
    with None show ?thesis by (simp add: memory_kv_time_def lc)
  next
    case (Some ms)
    with mid obtain masks where mm: "mm = Some masks" by (cases mm) simp_all
    from inv Some obtain cm where cm: "memory_kv ci = Some cm"
      and old: "\<forall>j < length cm. time_dim lib (fst (cm ! j)) = 0 \<or>
           (j < length ms \<and> time_dim lib (fst (cm ! j)) = shape lib (ms ! j) ! 1 \<and>
            time_dim lib (snd (cm ! j)) = shape lib (ms ! j) ! 1)"
      by (elim cache_after_memory_kv) simp
    let ?zs = "zip (attention l) (zip ms (zip masks (map Some cm)))"
    from mid Some mm cm have at: "attend lib tr ?zs x1 None [] = Inr (x2, a, mkv)"
      by simp
    from attend_kv_rule [OF zip_attention_spec [OF ats] at]
    have rules: "list_all2 (\<lambda>z kv. memory_kv_rule lib (fst (snd z)) (snd (snd (snd z))) kv) ?zs mkv"
      by simp
    from list_all2_lengthD [OF rules] have len: "length mkv = length ?zs" by (rule sym)
    then have le: "length mkv \<le> length ms" by simp
    have "\<And>j. j < length mkv \<Longrightarrow>
           time_dim lib (fst (mkv ! j)) = shape lib (ms ! j) ! 1 \<and>
           time_dim lib (snd (mkv ! j)) = shape lib (ms ! j) ! 1"
    proof -
      fix j assume j: "j < length mkv"
      with len have jz: "j < length ?zs" by simp
      then have ja: "j < length (attention l)" and jm: "j < length ms"
        and jk: "j < length masks" and jc: "j < length cm"
        by simp_all
      from jz rules have "memory_kv_rule lib (fst (snd (?zs ! j))) (snd (snd (snd (?zs ! j)))) (mkv ! j)"
        by (simp add: list_all2_conv_all_nth)
      with ja jm jk jc have r: "memory_kv_rule lib (ms ! j) (Some (cm ! j)) (mkv ! j)"
        by simp
      from old jc have "time_dim lib (fst (cm ! j)) = 0 \<or>
           (time_dim lib (fst (cm ! j)) = shape lib (ms ! j) ! 1 \<and>
            time_dim lib (snd (cm ! j)) = shape lib (ms ! j) ! 1)"
        by blast
      from memory_kv_rule_times [OF r this]
      show "time_dim lib (fst (mkv ! j)) = shape lib (ms ! j) ! 1 \<and>
           time_dim lib (snd (mkv ! j)) = shape lib (ms ! j) ! 1" .
    qed
    with le have "memory_kv_time lib ms lc"
      by (intro memory_kv_timeI [of lc mkv]) (simp_all add: lc)
    with Some show ?thesis by simp
  qed
  from self memory show ?thesis by (simp add: cache_after_def)
qed

lemma run_layers_cache_after:
  assumes "list_all (layer_spec lib h d n) ls"
    and "shape lib x ! 1 = 1"
    and "list_all (cache_after lib (case mem of None \<Rightarrow> [] | Some ms \<Rightarrow> ms) k) c"
    and "run_layers lib ls i m mem mm (Some c) tr x nc att = Inr (x', nc', att')"
  shows "\<exists>new. nc' = nc @ new \<and> length new = length ls \<and>
           list_all (cache_after lib (case mem of None \<Rightarrow> [] | Some ms \<Rightarrow> ms) (Suc k)) new"
  using assms
proof (induction ls arbitrary: i x nc att)
  case Nil
  then show ?case by simp
next
  case (Cons l ls)
  from Cons.prems(4) obtain ci x1 lc a1 where
    ci: "(case Some c of None \<Rightarrow> Inr None
          | Some c' \<Rightarrow> if i < length c' then Inr (Some (c' ! i)) else Inl IndexError) = Inr ci"
    and c1: "call lib l x m mem mm ci tr = Inr (x1, lc, a1)"
    and rest: "run_layers lib ls (Suc i) m mem mm (Some c) tr x1 (nc @ [lc]) (Some a1)
                 = Inr (x', nc', att')"
    by (rule run_layers_ConsE)
  from ci have i: "i < length c" and cie: "ci = Some (c ! i)"
    by (auto split: if_splits)
  from Cons.prems(1) have l: "layer_spec lib h d n l" and ls: "list_all (layer_spec lib h d n) ls"
    by simp_all
  from Cons.prems(3) i have inv: "cache_after lib (case mem of None \<Rightarrow> [] | Some ms \<Rightarrow> ms) k (c ! i)"
    by (simp add: list_all_length)
  from call_cache_after [OF l c1 [unfolded cie] Cons.prems(2) inv]
  have head: "cache_after lib (case mem of None \<Rightarrow> [] | Some ms \<Rightarrow> ms) (Suc k) lc" .
  from call_shape [OF l c1] Cons.prems(2) have sx: "shape lib x1 ! 1 = 1" by simp
  from Cons.IH [OF ls sx Cons.prems(3) rest] obtain new where
    new: "nc' = (nc @ [lc]) @ new" "length new = length ls"
      "list_all (cache_after lib (case mem of None \<Rightarrow> [] | Some ms \<Rightarrow> ms) (Suc k)) new"
    by blast
  with head show ?case
    by (intro exI [of _ "lc # new"]) simp
qed

lemma memory_list_as_tuple:
  "(case as_tuple memory of None \<Rightarrow> [] | Some ms \<Rightarrow> ms) = memory_list memory"
  by (cases memory) (simp_all add: as_tuple_def memory_list_def)

lemma run_cache_after:
  assumes "tf_spec lib" and "decoder_spec lib self"
    and "shape lib x ! 1 = 1"
    and "list_all (cache_after lib (memory_list memory) k) c"
    and "run lib self x sl (Some c) memory msl st tr = Inr (y, nc, a)"
  shows "length nc = length (layers self) \<and>
         list_all (cache_after lib (memory_list memory) (Suc k)) nc"
proof -
  from assms(5) obtain x1 m mm x2 where
    p: "process_inputs lib self x st tr = Inr x1"
    and rl: "run_layers lib (layers self) 0 m (as_tuple memory) mm (Some c) tr x1 [] None
               = Inr (x2, nc, Some a)"
    by (rule run_InrE)
  from assms(2) have ls: "list_all (layer_spec lib (num_heads self)
        (num_units self div num_heads self) (num_sources self)) (layers self)"
    by (simp add: decoder_spec_def)
  from process_inputs_shape [OF assms(1,2) p] assms(3) have sx: "shape lib x1 ! 1 = 1" by simp
  from assms(4) have inv: "list_all (cache_after lib
      (case as_tuple memory of None \<Rightarrow> [] | Some ms \<Rightarrow> ms) k) c"
    by (simp add: memory_list_as_tuple)
  from run_layers_cache_after [OF ls sx inv rl] show ?thesis
    by (auto simp: memory_list_as_tuple)
qed

lemma expand_dims_time:
  assumes "tf_spec lib" and "expand_dims lib x 1 = Some x1"
  shows "shape lib x1 ! 1 = 1"
proof -
  from assms(1) have
    "\<forall>x axis y. expand_dims lib x axis = Some y \<longrightarrow>
         axis \<le> length (shape lib x) \<and>
         shape lib y = take axis (shape lib x) @ [1] @ drop axis (shape lib x)"
    by (simp add: tf_spec_def)
  from this [rule_format, OF assms(2)]
  have len: "1 \<le> length (shape lib x)"
    and s: "shape lib x1 = take 1 (shape lib x) @ [1] @ drop 1 (shape lib x)"
    by simp_all
  from len have "length (take 1 (shape lib x)) = 1" by simp
  with s show ?thesis by (simp add: nth_append)
qed

lemma step_InrE:
  assumes "step lib self x t state memory msl tr = Inr (outputs, nc, att)"
  obtains x1 o1 a1 where
    "expand_dims lib x 1 = Some x1"
    and "run lib self x1 None state memory msl (Some t) tr = Inr (o1, nc, a1)"
    and "squeeze lib o1 1 = Some outputs"
    and "att = (case a1 of None \<Rightarrow> None | Some a \<Rightarrow> squeeze lib a 1)"
    and "(att = None) = (a1 = None)"
  using assms
  by (auto simp: step_def bindE_eq_Inr split: option.splits)

lemma step_cache_after:
  assumes "tf_spec lib" and "decoder_spec lib self"
    and "list_all (cache_after lib (memory_list memory) k) c"
    and "step lib self x t (Some c) memory msl tr = Inr (outputs, nc, att)"
  shows "length nc = length (layers self) \<and>
         list_all (cache_after lib (memory_list memory) (Suc k)) nc"
proof -
  from assms(4) obtain x1 o1 a1 where
    e: "expand_dims lib x 1 = Some x1"
    and r: "run lib self x1 None (Some c) memory msl (Some t) tr = Inr (o1, nc, a1)"
    by (rule step_InrE)
  from run_cache_after [OF assms(1,2) expand_dims_time [OF assms(1) e] assms(3) r]
  show ?thesis .
qed

lemma successive_steps_cache_after:
  assumes "tf_spec lib" and "decoder_spec lib self"
    and "list_all (cache_after lib (memory_list memory) k) c0"
    and "length c0 = length (layers self)"
    and "successive_steps lib self calls c0 memory msl tr = Inr c"
  shows "length c = length (layers self) \<and>
         list_all (cache_after lib (memory_list memory) (k + length calls)) c"
  using assms(3,4,5)
proof (induction calls arbitrary: k c0)
  case Nil
  then show ?case by simp
next
  case (Cons call calls)
  obtain x t where call: "call = (x, t)" by (cases call)
  from Cons.prems(3) obtain outputs c1 att where
    s: "step lib self x t (Some c0) memory msl tr = Inr (outputs, c1, att)"
    and rest: "successive_steps lib self calls c1 memory msl tr = Inr c"
    by (auto simp: call bindE_eq_Inr)
  from step_cache_after [OF assms(1,2) Cons.prems(1) s]
  have c1: "length c1 = length (layers self)"
    "list_all (cache_after lib (memory_list memory) (Suc k)) c1"
    by simp_all
  from Cons.IH [OF c1(2) c1(1) rest] show ?case by simp
qed

lemma initial_state_cache_after:
  assumes "tf_spec lib" and "get_initial_state lib self b dt init = Inr c0"
  shows "length c0 = length (layers self) \<and> list_all (cache_after lib mems 0) c0"
proof (cases "num_heads self = 0")
  case True
  with assms(2) have "layers self = []" "c0 = []"
    by (cases "layers self"; simp add: get_initial_state_def)+
  then show ?thesis by simp
next
  case False
  let ?z = "zeros lib [b, num_heads self, 0, num_units self div num_heads self] dt"
  from False have h: "0 < num_heads self" by simp
  from assms(2) initial_state_layers_replicate [OF h, of lib b dt "layers self"]
  have c0: "c0 = replicate (length (layers self))
       \<lparr>self_kv = Some (?z, ?z), memory_kv = Some (replicate (num_sources self) (?z, ?z))\<rparr>"
    by (simp add: get_initial_state_def)
  from assms(1) have "shape lib ?z = [b, num_heads self, 0, num_units self div num_heads self]"
    by (simp add: tf_spec_def)
  then have z: "time_dim lib ?z = 0" by (simp add: time_dim_def)
  have "cache_after lib mems 0
       \<lparr>self_kv = Some (?z, ?z), memory_kv = Some (replicate (num_sources self) (?z, ?z))\<rparr>"
    by (simp add: cache_after_def self_kv_time_def memory_kv_empty_def z list_all_length)
  with c0 show ?thesis by (simp add: list_all_length)
qed


lemma initial_state_one_source:
  "get_initial_state shape_tf decoder_one_source 2 Float32 (None :: unit option) =
     Inr [\<lparr>self_kv = Some ([2, 2, 0, 2], [2, 2, 0, 2]),
            memory_kv = Some [([2, 2, 0, 2], [2, 2, 0, 2])]\<rparr>,
          \<lparr>self_kv = Some ([2, 2, 0, 2], [2, 2, 0, 2]),
            memory_kv = Some [([2, 2, 0, 2], [2, 2, 0, 2])]\<rparr>]"
  by (simp add: shape_eval)

lemma first_step_one_source:
  "step shape_tf decoder_one_source [2, 4] 0
     (Some [\<lparr>self_kv = Some ([2, 2, 0, 2], [2, 2, 0, 2]),
              memory_kv = Some [([2, 2, 0, 2], [2, 2, 0, 2])]\<rparr>,
            \<lparr>self_kv = Some ([2, 2, 0, 2], [2, 2, 0, 2]),
              memory_kv = Some [([2, 2, 0, 2], [2, 2, 0, 2])]\<rparr>])
     (Some (Bare [2, 5, 4])) (Some (Bare [2])) None
   = Inr ([2, 4],
          [\<lparr>self_kv = Some ([2, 2, 1, 2], [2, 2, 1, 2]),
             memory_kv = Some [([2, 2, 5, 2], [2, 2, 5, 2])]\<rparr>,
           \<lparr>self_kv = Some ([2, 2, 1, 2], [2, 2, 1, 2]),
             memory_kv = Some [([2, 2, 5, 2], [2, 2, 5, 2])]\<rparr>],
          Some [2, 5])"
  by (simp add: shape_eval)

lemma second_step_one_source:
  "step shape_tf decoder_one_source [2, 4] 1
     (Some [\<lparr>self_kv = Some ([2, 2, 1, 2], [2, 2, 1, 2]),
              memory_kv = Some [([2, 2, 5, 2], [2, 2, 5, 2])]\<rparr>,
            \<lparr>self_kv = Some ([2, 2, 1, 2], [2, 2, 1, 2]),
              memory_kv = Some [([2, 2, 5, 2], [2, 2, 5, 2])]\<rparr>])
     (Some (Bare [2, 5, 4])) (Some (Bare [2])) None
   = Inr ([2, 4],
          [\<lparr>self_kv = Some ([2, 2, 2, 2], [2, 2, 2, 2]),
             memory_kv = Some [([2, 2, 5, 2], [2, 2, 5, 2])]\<rparr>,
           \<lparr>self_kv = Some ([2, 2, 2, 2], [2, 2, 2, 2]),
             memory_kv = Some [([2, 2, 5, 2], [2, 2, 5, 2])]\<rparr>],
          Some [2, 5])"
  by (simp add: shape_eval)

lemma two_steps_one_source:
  "successive_steps shape_tf decoder_one_source [([2, 4], 0), ([2, 4], 1)]
     [\<lparr>self_kv = Some ([2, 2, 0, 2], [2, 2, 0, 2]),
        memory_kv = Some [([2, 2, 0, 2], [2, 2, 0, 2])]\<rparr>,
      \<lparr>self_kv = Some ([2, 2, 0, 2], [2, 2, 0, 2]),
        memory_kv = Some [([2, 2, 0, 2], [2, 2, 0, 2])]\<rparr>]
     (Some (Bare [2, 5, 4])) (Some (Bare [2])) None
   = Inr [\<lparr>self_kv = Some ([2, 2, 2, 2], [2, 2, 2, 2]),
            memory_kv = Some [([2, 2, 5, 2], [2, 2, 5, 2])]\<rparr>,
          \<lparr>self_kv = Some ([2, 2, 2, 2], [2, 2, 2, 2]),
            memory_kv = Some [([2, 2, 5, 2], [2, 2, 5, 2])]\<rparr>]"
  by (simp only: successive_steps.simps first_step_one_source second_step_one_source
        bindE_Inr prod.case)


section \<open>The query mask that the layers receive\<close>

lemma process_inputs_InrE:
  assumes "process_inputs lib self x st tr = Inr xd"
  obtains xs xp where
    "mul_sqrt lib x (num_units self) = Some xs"
    and "(case position_encoder self of
            None \<Rightarrow> xp = xs
          | Some encoder \<Rightarrow> encoder xs (case st of None \<Rightarrow> None | Some s \<Rightarrow> Some (s + 1)) = Some xp)"
    and "common_dropout lib xp (dropout self) tr = Some xd"
  using assms
  by (cases "position_encoder self") (auto simp: process_inputs_def bindE_eq_Inr)

lemma query_mask_None_iff:
  assumes "query_mask lib x sl = Inr m"
  shows "(m = None) = (sl = None)"
  using assms by (cases sl) (auto simp: query_mask_def bindE_eq_Inr)

lemma query_mask_Some:
  assumes "query_mask lib x (Some sl) = Inr m"
  shows "1 < length (shape lib x) \<and> m = future_mask lib sl (shape lib x ! 1)"
  using assms by (auto simp: query_mask_def dim1_def bindE_eq_Inr split: if_splits)

lemma run_layers_self_attention:
  assumes "run_layers lib ls i m mem mm c tr x nc att = Inr (x', nc', att')"
  shows "\<forall>j < length ls. \<exists>xj cj r. self_attention (ls ! j) xj m cj tr = Some r"
  using assms
proof (induction ls arbitrary: i x nc att)
  case Nil
  then show ?case by simp
next
  case (Cons l ls)
  from Cons.prems obtain ci x1 lc a1 where
    c1: "call lib l x m mem mm ci tr = Inr (x1, lc, a1)"
    and rest: "run_layers lib ls (Suc i) m mem mm c tr x1 (nc @ [lc]) (Some a1) = Inr (x', nc', att')"
    by (rule run_layers_ConsE)
  from c1 obtain y skv where
    "self_attention l x m
       (self_kv (case ci of None \<Rightarrow> \<lparr>self_kv = None, memory_kv = None\<rparr> | Some c' \<Rightarrow> c')) tr
     = Some (y, skv)"
    by (rule call_InrE)
  then have head: "\<exists>xj cj r. self_attention l xj m cj tr = Some r" by blast
  from Cons.IH [OF rest] have tail:
    "\<forall>j < length ls. \<exists>xj cj r. self_attention (ls ! j) xj m cj tr = Some r" .
  show ?case
  proof (intro allI impI)
    fix j assume "j < length (l # ls)"
    then show "\<exists>xj cj r. self_attention ((l # ls) ! j) xj m cj tr = Some r"
      using head tail by (cases j) simp_all
  qed
qed

text \<open>
  C9. Of a call of \<^verbatim>\<open>_run\<close> that returns: the inputs were processed into \<open>x\<close> and the
  query mask \<open>m\<close> was prepared from \<open>x\<close>; \<open>m\<close> is \<^verbatim>\<open>None\<close> exactly when \<^verbatim>\<open>sequence_length\<close>
  is, and with a \<^verbatim>\<open>sequence_length\<close> it is the mask that \<^verbatim>\<open>future_mask\<close> (causal and
  padding) returns for that length and the time extent \<^verbatim>\<open>tf.shape(inputs)[1]\<close> of \<open>x\<close>; the
  layers were run on \<open>x\<close> with the mask \<open>m\<close>, and the self attention of every layer was
  called with \<open>m\<close> as its mask; no other mask reaches a self attention, since \<^verbatim>\<open>_run\<close>
  returns the same on the decoder whose self attentions ignore the mask they are given
  and use \<open>m\<close>.
\<close>

theorem query_mask_iff_sequence_length:
  assumes "run lib self inputs sequence_length cache memory memory_sequence_length timestep training
           = Inr (outputs, new_cache, att)"
  shows "\<exists>x m mm xl.
           process_inputs lib self inputs timestep training = Inr x \<and>
           query_mask lib x sequence_length = Inr m \<and>
           (m = None) = (sequence_length = None) \<and>
           (\<forall>sl. sequence_length = Some sl \<longrightarrow>
              1 < length (shape lib x) \<and> m = future_mask lib sl (shape lib x ! 1)) \<and>
           run_layers lib (layers self) 0 m (as_tuple memory) mm cache training x [] None
             = Inr (xl, new_cache, Some att) \<and>
           (\<forall>i < length (layers self). \<exists>xi ci r.
              self_attention (layers self ! i) xi m ci training = Some r) \<and>
           run lib self inputs sequence_length cache memory memory_sequence_length timestep training
           = run lib (with_mask m self) inputs sequence_length cache memory memory_sequence_length
               timestep training"
proof -
  from assms obtain x m mm xl where
    p: "process_inputs lib self inputs timestep training = Inr x"
    and q: "query_mask lib x sequence_length = Inr m"
    and rl: "run_layers lib (layers self) 0 m (as_tuple memory) mm cache training x [] None
               = Inr (xl, new_cache, Some att)"
    by (rule run_InrE)
  have l: "layers (with_mask m self) =
      map (\<lambda>l. l\<lparr>self_attention := (\<lambda>x given c tr. self_attention l x m c tr)\<rparr>) (layers self)"
    and n: "layer_norm (with_mask m self) = layer_norm self"
    by (simp_all add: with_mask_def)
  have same: "run lib self inputs sequence_length cache memory memory_sequence_length timestep training
           = run lib (with_mask m self) inputs sequence_length cache memory memory_sequence_length
               timestep training"
    using p q
    by (simp add: run_def process_inputs_with_mask l n run_layers_deaf_to_mask Let_def)
  have some: "\<forall>sl. sequence_length = Some sl \<longrightarrow>
              1 < length (shape lib x) \<and> m = future_mask lib sl (shape lib x ! 1)"
    using q query_mask_Some [of lib x _ m] by blast
  from p q query_mask_None_iff [OF q] some rl run_layers_self_attention [OF rl] same
  show ?thesis
    by (intro exI [of _ x] exI [of _ m] exI [of _ mm] exI [of _ xl] conjI)
qed

theorem query_mask_iff_sequence_length_witness:
  "\<exists>x m mm xl.
     process_inputs shape_tf decoder_one_source [2, 3, 4] None None = Inr x \<and>
     query_mask shape_tf x (Some [2]) = Inr m \<and>
     (m = None) = (Some [2 :: nat] = None) \<and>
     (\<forall>sl. Some [2] = Some sl \<longrightarrow>
        1 < length (shape shape_tf x) \<and> m = future_mask shape_tf sl (shape shape_tf x ! 1)) \<and>
     run_layers shape_tf (layers decoder_one_source) 0 m (as_tuple (Some (Bare [2, 5, 4]))) mm None
       None x [] None
       = Inr (xl,
          [\<lparr>self_kv = Some ([2, 2, 3, 2], [2, 2, 3, 2]),
             memory_kv = Some [([2, 2, 5, 2], [2, 2, 5, 2])]\<rparr>,
           \<lparr>self_kv = Some ([2, 2, 3, 2], [2, 2, 3, 2]),
             memory_kv = Some [([2, 2, 5, 2], [2, 2, 5, 2])]\<rparr>], Some (Some [2, 3, 5])) \<and>
     (\<forall>i < length (layers decoder_one_source). \<exists>xi ci r.
        self_attention (layers decoder_one_source ! i) xi m ci None = Some r) \<and>
     run shape_tf decoder_one_source [2, 3, 4] (Some [2]) None (Some (Bare [2, 5, 4]))
       (Some (Bare [2])) None None
     = run shape_tf (with_mask m decoder_one_source) [2, 3, 4] (Some [2]) None
         (Some (Bare [2, 5, 4])) (Some (Bare [2])) None None"
  by (rule query_mask_iff_sequence_length [OF run_one_source])

section \<open>What a step does\<close>

text \<open>
  C8. For an input of shape [batch, units] and a timestep \<open>t\<close>, a call of \<^verbatim>\<open>step\<close> that
  returns has expanded the input to \<open>x1\<close> of shape [batch, 1, units] and has run \<^verbatim>\<open>_run\<close>
  on \<open>x1\<close> with the state, the memory, no sequence length and the step \<open>t\<close>. In that run
  \<open>x1\<close> was multiplied by \<^verbatim>\<open>num_units**0.5\<close>, the position encoder (when there is one)
  was applied to the product at position \<open>t + 1\<close>, the dropout was applied, the layers
  were run on the result without a mask, and the layer normalisation gave outputs of shape
  [batch, 1, units]. \<^verbatim>\<open>step\<close> squeezed them to [batch, units]; the attention is squeezed
  likewise when there is one and is absent when \<^verbatim>\<open>_run\<close> returns none; the state is the
  one \<^verbatim>\<open>_run\<close> returns. The encoder is consulted at no other position: the run returns
  the same on the decoder whose encoder ignores the position it is given and encodes at
  \<open>t + 1\<close>, whatever step that decoder is told.
\<close>

theorem step_expands_runs_squeezes:
  assumes "tf_spec lib" and "decoder_spec lib self"
    and "shape lib inputs = [batch, units]"
    and "step lib self inputs timestep state memory memory_sequence_length training
           = Inr (outputs, new_state, att)"
  shows "\<exists>x1 xs xp xd mm xl o1 a1.
           expand_dims lib inputs 1 = Some x1 \<and> shape lib x1 = [batch, 1, units] \<and>
           run lib self x1 None state memory memory_sequence_length (Some timestep) training
             = Inr (o1, new_state, a1) \<and>
           mul_sqrt lib x1 (num_units self) = Some xs \<and>
           (case position_encoder self of
              None \<Rightarrow> xp = xs
            | Some encoder \<Rightarrow> encoder xs (Some (timestep + 1)) = Some xp) \<and>
           common_dropout lib xp (dropout self) training = Some xd \<and>
           run_layers lib (layers self) 0 None (as_tuple memory) mm state training xd [] None
             = Inr (xl, new_state, Some a1) \<and>
           layer_norm self xl = Some o1 \<and>
           shape lib o1 = [batch, 1, units] \<and>
           squeeze lib o1 1 = Some outputs \<and> shape lib outputs = [batch, units] \<and>
           att = (case a1 of None \<Rightarrow> None | Some a \<Rightarrow> squeeze lib a 1) \<and>
           (att = None) = (a1 = None) \<and>
           run lib (at_position (Some (timestep + 1)) self) x1 None state memory
             memory_sequence_length any_step training = Inr (o1, new_state, a1)"
proof -
  from assms(4) obtain x1 o1 a1 where
    e: "expand_dims lib inputs 1 = Some x1"
    and r: "run lib self x1 None state memory memory_sequence_length (Some timestep) training
              = Inr (o1, new_state, a1)"
    and s: "squeeze lib o1 1 = Some outputs"
    and a: "att = (case a1 of None \<Rightarrow> None | Some a \<Rightarrow> squeeze lib a 1)"
      "(att = None) = (a1 = None)"
    by (rule step_InrE)
  from r obtain xd m mm xl where
    p: "process_inputs lib self x1 (Some timestep) training = Inr xd"
    and q: "query_mask lib xd None = Inr m"
    and rl: "run_layers lib (layers self) 0 m (as_tuple memory) mm state training xd [] None
               = Inr (xl, new_state, Some a1)"
    and ln: "layer_norm self xl = Some o1"
    by (rule run_InrE)
  from q have m: "m = None" by (simp add: query_mask_def)
  from p obtain xs xp where
    ms: "mul_sqrt lib x1 (num_units self) = Some xs"
    and pe0: "(case position_encoder self of
            None \<Rightarrow> xp = xs
          | Some encoder \<Rightarrow>
              encoder xs (case Some timestep of None \<Rightarrow> None | Some s \<Rightarrow> Some (s + 1)) = Some xp)"
    and dr: "common_dropout lib xp (dropout self) training = Some xd"
    by (rule process_inputs_InrE)
  from pe0 have pe: "(case position_encoder self of
              None \<Rightarrow> xp = xs
            | Some encoder \<Rightarrow> encoder xs (Some (timestep + 1)) = Some xp)"
    by (simp cong: option.case_cong)
  from assms(1) have
    "\<forall>x axis y. expand_dims lib x axis = Some y \<longrightarrow>
         axis \<le> length (shape lib x) \<and>
         shape lib y = take axis (shape lib x) @ [1] @ drop axis (shape lib x)"
    by (simp add: tf_spec_def)
  from this [rule_format, OF e] assms(3) have x1: "shape lib x1 = [batch, 1, units]" by simp
  from run_shape [OF assms(1,2) r] x1 have o1: "shape lib o1 = [batch, 1, units]" by simp
  from assms(1) have
    "\<forall>x axis y. squeeze lib x axis = Some y \<longrightarrow>
         axis < length (shape lib x) \<and> shape lib x ! axis = 1 \<and>
         shape lib y = take axis (shape lib x) @ drop (Suc axis) (shape lib x)"
    by (simp add: tf_spec_def)
  from this [rule_format, OF s] o1 have out: "shape lib outputs = [batch, units]" by simp
  from r have ap: "run lib (at_position (Some (timestep + 1)) self) x1 None state memory
             memory_sequence_length any_step training = Inr (o1, new_state, a1)"
    by (simp add: run_at_position)
  from e x1 r ms pe dr rl [unfolded m] ln o1 s out a ap show ?thesis
    by (intro exI [of _ x1] exI [of _ xs] exI [of _ xp] exI [of _ xd] exI [of _ mm]
          exI [of _ xl] exI [of _ o1] exI [of _ a1] conjI)
qed

theorem step_expands_runs_squeezes_witness:
  "tf_spec shape_tf \<and> decoder_spec shape_tf decoder_one_source \<and>
   shape shape_tf [2, 4] = [2, 4] \<and>
   (\<exists>x1 xs xp xd mm xl o1 a1.
      expand_dims shape_tf [2, 4] 1 = Some x1 \<and> shape shape_tf x1 = [2, 1, 4] \<and>
      run shape_tf decoder_one_source x1 None None (Some (Bare [2, 5, 4])) (Some (Bare [2]))
        (Some 0) None
      = Inr (o1,
          [\<lparr>self_kv = Some ([2, 2, 1, 2], [2, 2, 1, 2]),
             memory_kv = Some [([2, 2, 5, 2], [2, 2, 5, 2])]\<rparr>,
           \<lparr>self_kv = Some ([2, 2, 1, 2], [2, 2, 1, 2]),
             memory_kv = Some [([2, 2, 5, 2], [2, 2, 5, 2])]\<rparr>], a1) \<and>
      mul_sqrt shape_tf x1 (num_units decoder_one_source) = Some xs \<and>
      (case position_encoder decoder_one_source of
         None \<Rightarrow> xp = xs
       | Some encoder \<Rightarrow> encoder xs (Some (0 + 1)) = Some xp) \<and>
      common_dropout shape_tf xp (dropout decoder_one_source) None = Some xd \<and>
      run_layers shape_tf (layers decoder_one_source) 0 None (as_tuple (Some (Bare [2, 5, 4]))) mm
        None None xd [] None
      = Inr (xl,
          [\<lparr>self_kv = Some ([2, 2, 1, 2], [2, 2, 1, 2]),
             memory_kv = Some [([2, 2, 5, 2], [2, 2, 5, 2])]\<rparr>,
           \<lparr>self_kv = Some ([2, 2, 1, 2], [2, 2, 1, 2]),
             memory_kv = Some [([2, 2, 5, 2], [2, 2, 5, 2])]\<rparr>], Some a1) \<and>
      layer_norm decoder_one_source xl = Some o1 \<and>
      shape shape_tf o1 = [2, 1, 4] \<and>
      squeeze shape_tf o1 1 = Some [2, 4] \<and> shape shape_tf [2, 4] = [2, 4] \<and>
      Some [2, 5] = (case a1 of None \<Rightarrow> None | Some a \<Rightarrow> squeeze shape_tf a 1) \<and>
      (Some [2, 5 :: nat] = None) = (a1 = None) \<and>
      run shape_tf (at_position (Some (0 + 1)) decoder_one_source) x1 None None
        (Some (Bare [2, 5, 4])) (Some (Bare [2])) None None
      = Inr (o1,
          [\<lparr>self_kv = Some ([2, 2, 1, 2], [2, 2, 1, 2]),
             memory_kv = Some [([2, 2, 5, 2], [2, 2, 5, 2])]\<rparr>,
           \<lparr>self_kv = Some ([2, 2, 1, 2], [2, 2, 1, 2]),
             memory_kv = Some [([2, 2, 5, 2], [2, 2, 5, 2])]\<rparr>], a1))"
proof -
  have s: "shape shape_tf [2, 4] = [2, 4]" by (simp add: shape_tf_def)
  note t = step_expands_runs_squeezes [where any_step = None,
      OF tf_spec_shape_tf decoder_spec_one_source s step_one_source]
  from tf_spec_shape_tf decoder_spec_one_source s t show ?thesis
    by (intro conjI) assumption+
qed

section \<open>Sources that do not match\<close>

lemma attend_calls:
  assumes "attend lib tr zs x att mkv = Inr (x', att', mkv')"
  shows "\<exists>new. mkv' = mkv @ new \<and>
           list_all2 (\<lambda>z kv. \<exists>q r. fst z q (fst (snd z)) (Some (fst (snd (snd z))))
                                     (snd (snd (snd z))) tr = Some r \<and> result_kv r = kv) zs new"
  using assms
proof (induction zs arbitrary: x att mkv)
  case Nil
  then show ?case by simp
next
  case (Cons z zs)
  obtain f mem mem_mask mem_cache where z: "z = (f, mem, mem_mask, mem_cache)"
    by (cases z) auto
  from Cons.prems obtain r where r: "f x mem (Some mem_mask) mem_cache tr = Some r"
    and rest: "(case r of
         Result3 outputs' memory_kv_i a \<Rightarrow>
           bindE (collab (first_head lib a)) (\<lambda>a0.
             attend lib tr zs outputs' (Some a0) (mkv @ [memory_kv_i]))
       | Result2 outputs' memory_kv_i \<Rightarrow>
           attend lib tr zs outputs' att (mkv @ [memory_kv_i])) = Inr (x', att', mkv')"
    by (auto simp: z bindE_eq_Inr)
  have "\<exists>y a'. attend lib tr zs y a' (mkv @ [result_kv r]) = Inr (x', att', mkv')"
  proof (cases r)
    case (Result2 y c)
    with rest show ?thesis by auto
  next
    case (Result3 y c a)
    with rest show ?thesis by (auto simp: bindE_eq_Inr)
  qed
  then obtain y a' where "attend lib tr zs y a' (mkv @ [result_kv r]) = Inr (x', att', mkv')"
    by blast
  from Cons.IH [OF this] obtain new where
    new: "mkv' = (mkv @ [result_kv r]) @ new"
      "list_all2 (\<lambda>z kv. \<exists>q r. fst z q (fst (snd z)) (Some (fst (snd (snd z))))
                                     (snd (snd (snd z))) tr = Some r \<and> result_kv r = kv) zs new"
    by blast
  from r have head: "\<exists>q r'. f q mem (Some mem_mask) mem_cache tr = Some r' \<and> result_kv r' = result_kv r"
    by blast
  from new head show ?case
    by (intro exI [of _ "result_kv r # new"]) (simp add: z)
qed

lemma memory_masks_nth:
  assumes "memory_masks lib ps = Inr ms"
  shows "list_all2 (\<lambda>p msk. \<exists>mk. sequence_mask lib (snd p) (shape lib (fst p) ! 1) = Some mk \<and>
                               expand_dims lib mk 1 = Some msk) ps ms"
  using assms
proof (induction ps arbitrary: ms)
  case Nil
  then show ?case by simp
next
  case (Cons p ps)
  obtain mem len where p: "p = (mem, len)" by (cases p)
  from Cons.prems obtain mk msk rest where
    mk: "sequence_mask lib len (shape lib mem ! 1) = Some mk"
    and msk: "expand_dims lib mk 1 = Some msk"
    and rest: "memory_masks lib ps = Inr rest"
    and ms: "ms = msk # rest"
    by (auto simp: p bindE_eq_Inr dim1_def split: if_splits)
  from Cons.IH [OF rest] mk msk show ?case
    by (auto simp: ms p)
qed

lemma call_memory_sources:
  assumes "call lib l x m (Some mems) (Some masks) ci tr = Inr (y, lc, a)"
  shows "\<exists>kvs. memory_kv lc = Some kvs \<and>
           (\<forall>j < length kvs. \<exists>q r.
              (attention l ! j) q (mems ! j) (Some (masks ! j))
                (case ci of
                   None \<Rightarrow> None
                 | Some c' \<Rightarrow> (case memory_kv c' of None \<Rightarrow> None | Some cm \<Rightarrow> Some (cm ! j))) tr
              = Some r \<and> result_kv r = kvs ! j)"
proof -
  let ?c = "case ci of None \<Rightarrow> \<lparr>self_kv = None, memory_kv = None\<rparr> | Some c' \<Rightarrow> c'"
  let ?mc = "case memory_kv ?c of
               None \<Rightarrow> replicate (length (attention l)) None
             | Some c' \<Rightarrow> map Some c'"
  let ?zs = "zip (attention l) (zip mems (zip masks ?mc))"
  from assms obtain x1 skv x2 mkv where
    mid: "(case Some mems of
            None \<Rightarrow> Inr (x1, None, [])
          | Some mems \<Rightarrow>
              (case Some masks of
                 None \<Rightarrow> Inl TypeError
               | Some masks \<Rightarrow>
                   attend lib tr
                     (zip (attention l) (zip mems (zip masks
                        (case memory_kv (case ci of None \<Rightarrow> \<lparr>self_kv = None, memory_kv = None\<rparr>
                                         | Some c' \<Rightarrow> c') of
                           None \<Rightarrow> replicate (length (attention l)) None
                         | Some c' \<Rightarrow> map Some c'))))
                     x1 None [])) = Inr (x2, a, mkv)"
    and lc: "lc = \<lparr>self_kv = Some skv, memory_kv = Some mkv\<rparr>"
    by (rule call_InrE)
  from mid have at: "attend lib tr ?zs x1 None [] = Inr (x2, a, mkv)" by simp
  from attend_calls [OF at]
  have calls: "list_all2 (\<lambda>z kv. \<exists>q r. fst z q (fst (snd z)) (Some (fst (snd (snd z))))
                                     (snd (snd (snd z))) tr = Some r \<and> result_kv r = kv) ?zs mkv"
    by simp
  from list_all2_lengthD [OF calls] have len: "length mkv = length ?zs" by (rule sym)
  have "\<forall>j < length mkv. \<exists>q r.
              (attention l ! j) q (mems ! j) (Some (masks ! j))
                (case ci of
                   None \<Rightarrow> None
                 | Some c' \<Rightarrow> (case memory_kv c' of None \<Rightarrow> None | Some cm \<Rightarrow> Some (cm ! j))) tr
              = Some r \<and> result_kv r = mkv ! j"
  proof (intro allI impI)
    fix j assume j: "j < length mkv"
    with len have jz: "j < length ?zs" by simp
    then have ja: "j < length (attention l)" and jm: "j < length mems"
      and jk: "j < length masks" and jc: "j < length ?mc"
      by simp_all
    from jc have mc: "?mc ! j = (case ci of
                   None \<Rightarrow> None
                 | Some c' \<Rightarrow> (case memory_kv c' of None \<Rightarrow> None | Some cm \<Rightarrow> Some (cm ! j)))"
      by (cases ci; cases "memory_kv ?c") (auto split: option.splits)
    from jz calls have "\<exists>q r. fst (?zs ! j) q (fst (snd (?zs ! j))) (Some (fst (snd (snd (?zs ! j)))))
                                     (snd (snd (snd (?zs ! j)))) tr = Some r \<and> result_kv r = mkv ! j"
      by (simp add: list_all2_conv_all_nth)
    with ja jm jk jc have "\<exists>q r. (attention l ! j) q (mems ! j) (Some (masks ! j)) (?mc ! j) tr
        = Some r \<and> result_kv r = mkv ! j"
      by simp
    then show "\<exists>q r.
              (attention l ! j) q (mems ! j) (Some (masks ! j))
                (case ci of
                   None \<Rightarrow> None
                 | Some c' \<Rightarrow> (case memory_kv c' of None \<Rightarrow> None | Some cm \<Rightarrow> Some (cm ! j))) tr
              = Some r \<and> result_kv r = mkv ! j"
      by (simp only: mc)
  qed
  then show ?thesis by (simp add: lc)
qed

lemma run_layers_memory_sources:
  assumes "run_layers lib ls i m (Some mems) (Some masks) cache tr x nc att = Inr (x', nc', att')"
  shows "\<exists>new. nc' = nc @ new \<and> length new = length ls \<and>
           (\<forall>k < length ls. \<exists>kvs. memory_kv (new ! k) = Some kvs \<and>
              (\<forall>j < length kvs. \<exists>q r.
                 (attention (ls ! k) ! j) q (mems ! j) (Some (masks ! j))
                   (cached_pair cache (i + k) j) tr = Some r \<and> result_kv r = kvs ! j))"
  using assms
proof (induction ls arbitrary: i x nc att)
  case Nil
  then show ?case by simp
next
  case (Cons l ls)
  from Cons.prems obtain ci x1 lc a1 where
    ci: "(case cache of None \<Rightarrow> Inr None
          | Some c' \<Rightarrow> if i < length c' then Inr (Some (c' ! i)) else Inl IndexError) = Inr ci"
    and c1: "call lib l x m (Some mems) (Some masks) ci tr = Inr (x1, lc, a1)"
    and rest: "run_layers lib ls (Suc i) m (Some mems) (Some masks) cache tr x1 (nc @ [lc]) (Some a1)
                 = Inr (x', nc', att')"
    by (rule run_layers_ConsE)
  have cp: "\<And>j. (case ci of
                   None \<Rightarrow> None
                 | Some c' \<Rightarrow> (case memory_kv c' of None \<Rightarrow> None | Some cm \<Rightarrow> Some (cm ! j)))
               = cached_pair cache i j"
    using ci by (cases cache) (auto simp: cached_pair_def split: if_splits)
  from call_memory_sources [OF c1] obtain kvs where
    head: "memory_kv lc = Some kvs"
      "\<forall>j < length kvs. \<exists>q r.
              (attention l ! j) q (mems ! j) (Some (masks ! j)) (cached_pair cache i j) tr
              = Some r \<and> result_kv r = kvs ! j"
    unfolding cp by blast
  from Cons.IH [OF rest] obtain new where
    new: "nc' = (nc @ [lc]) @ new" "length new = length ls"
    and tail: "\<forall>k < length ls. \<exists>kvs. memory_kv (new ! k) = Some kvs \<and>
              (\<forall>j < length kvs. \<exists>q r.
                 (attention (ls ! k) ! j) q (mems ! j) (Some (masks ! j))
                   (cached_pair cache (Suc i + k) j) tr = Some r \<and> result_kv r = kvs ! j)"
    by blast
  have "\<forall>k < length (l # ls). \<exists>kvs. memory_kv ((lc # new) ! k) = Some kvs \<and>
              (\<forall>j < length kvs. \<exists>q r.
                 (attention ((l # ls) ! k) ! j) q (mems ! j) (Some (masks ! j))
                   (cached_pair cache (i + k) j) tr = Some r \<and> result_kv r = kvs ! j)"
  proof (intro allI impI)
    fix k assume k: "k < length (l # ls)"
    show "\<exists>kvs. memory_kv ((lc # new) ! k) = Some kvs \<and>
              (\<forall>j < length kvs. \<exists>q r.
                 (attention ((l # ls) ! k) ! j) q (mems ! j) (Some (masks ! j))
                   (cached_pair cache (i + k) j) tr = Some r \<and> result_kv r = kvs ! j)"
    proof (cases k)
      case 0
      with head show ?thesis by simp
    next
      case (Suc k')
      with k have "k' < length ls" by simp
      with tail Suc show ?thesis by simp
    qed
  qed
  with new show ?case by (intro exI [of _ "lc # new"]) simp
qed

lemma prepare_memory_mask_nth:
  assumes "prepare_memory_mask lib (Some mems) (Some msl) = Inr mm"
  shows "\<exists>masks. mm = Some masks \<and>
           length masks = min (length mems) (length (seq_items msl)) \<and>
           (\<forall>j < length masks. \<exists>mk.
              sequence_mask lib (seq_items msl ! j) (shape lib (mems ! j) ! 1) = Some mk \<and>
              expand_dims lib mk 1 = Some (masks ! j))"
proof -
  from assms obtain masks where mm: "mm = Some masks"
    and ms: "memory_masks lib (zip mems (seq_items msl)) = Inr masks"
    by (auto simp: prepare_memory_mask_def Let_def bindE_eq_Inr)
  from memory_masks_nth [OF ms]
  have rel: "list_all2 (\<lambda>p msk. \<exists>mk. sequence_mask lib (snd p) (shape lib (fst p) ! 1) = Some mk \<and>
                               expand_dims lib mk 1 = Some msk) (zip mems (seq_items msl)) masks" .
  from list_all2_lengthD [OF rel] have len: "length masks = length (zip mems (seq_items msl))"
    by (rule sym)
  have "\<forall>j < length masks. \<exists>mk.
              sequence_mask lib (seq_items msl ! j) (shape lib (mems ! j) ! 1) = Some mk \<and>
              expand_dims lib mk 1 = Some (masks ! j)"
  proof (intro allI impI)
    fix j assume "j < length masks"
    with len have jz: "j < length (zip mems (seq_items msl))" by simp
    then have jm: "j < length mems" and jl: "j < length (seq_items msl)" by simp_all
    from list_all2_nthD [OF rel jz]
    have "\<exists>mk. sequence_mask lib (snd (zip mems (seq_items msl) ! j))
         (shape lib (fst (zip mems (seq_items msl) ! j)) ! 1) = Some mk \<and>
         expand_dims lib mk 1 = Some (masks ! j)" .
    with jm jl show "\<exists>mk.
              sequence_mask lib (seq_items msl ! j) (shape lib (mems ! j) ! 1) = Some mk \<and>
              expand_dims lib mk 1 = Some (masks ! j)"
      by simp
  qed
  with mm len show ?thesis by simp
qed

text \<open>
  C6, as the code has it. The code does not compare the number of memory tensors or of
  length vectors with \<open>num_sources\<close>: \<^verbatim>\<open>zip\<close> stops at the shortest of its arguments. A
  call of \<^verbatim>\<open>_run\<close> with a memory and lengths that returns has run, in every layer \<open>i\<close>, the
  memory attention of the first sources only, as many as the least of \<open>num_sources\<close>, the
  number of memory tensors, the number of length vectors and the number of cached memory
  projections of the layer. \<^verbatim>\<open>memory_kv\<close> of the layer has that many entries, and its entry
  \<open>j\<close> is what the attention layer \<open>j\<close> of layer \<open>i\<close> returned on the memory tensor \<open>j\<close>, with
  the mask built from the length vector \<open>j\<close> and the second dimension of that tensor, and with
  the cached projections \<open>j\<close> of the layer.
\<close>

theorem mismatched_sources_are_truncated:
  assumes "run lib
             (SelfAttentionDecoder cls n_layers n_units n_heads ffn_inner_dim dropout_rate
                attention_dropout ffn_dropout position_encoder_class n_sources out_layer)
             inputs sequence_length cache (Some memory) (Some memory_sequence_length)
             timestep training = Inr (outputs, new_cache, att)"
  shows "length new_cache = n_layers \<and>
         (\<forall>i < n_layers. \<exists>kvs. memory_kv (new_cache ! i) = Some kvs \<and>
            length kvs = min n_sources (min (length (seq_items memory))
              (min (length (seq_items memory_sequence_length))
                   (cached_sources cache i n_sources))) \<and>
            (\<forall>j < length kvs. \<exists>q mk msk r.
               sequence_mask lib (seq_items memory_sequence_length ! j)
                 (shape lib (seq_items memory ! j) ! 1) = Some mk \<and>
               expand_dims lib mk 1 = Some msk \<and>
               new_attention cls i j n_heads n_units attention_dropout (n_sources = 1) dropout_rate
                 q (seq_items memory ! j) (Some msk) (cached_pair cache i j) training = Some r \<and>
               result_kv r = kvs ! j))"
proof -
  let ?self = "SelfAttentionDecoder cls n_layers n_units n_heads ffn_inner_dim dropout_rate
                attention_dropout ffn_dropout position_encoder_class n_sources out_layer"
  let ?mems = "seq_items memory"
  from assms obtain x m mm x' where
    pm: "prepare_memory_mask lib (as_tuple (Some memory)) (Some memory_sequence_length) = Inr mm"
    and rl0: "run_layers lib (layers ?self) 0 m (as_tuple (Some memory)) mm cache training x [] None
               = Inr (x', new_cache, Some att)"
    by (rule run_InrE)
  have at: "as_tuple (Some memory) = Some ?mems" by (simp add: as_tuple_def)
  from prepare_memory_mask_nth [OF pm [unfolded at]] obtain masks where
    masks: "mm = Some masks"
      "length masks = min (length ?mems) (length (seq_items memory_sequence_length))"
    and mk: "\<forall>j < length masks. \<exists>mk.
              sequence_mask lib (seq_items memory_sequence_length ! j) (shape lib (?mems ! j) ! 1)
                = Some mk \<and>
              expand_dims lib mk 1 = Some (masks ! j)"
    by blast
  from rl0 have rl: "run_layers lib (layers ?self) 0 m (Some ?mems) (Some masks) cache training
      x [] None = Inr (x', new_cache, Some att)"
    by (simp only: at masks(1))
  from run_layers_memory_kv_length [OF rl]
  have len: "length new_cache = length (layers ?self)"
    and each: "\<forall>j < length (layers ?self). \<exists>kvs. memory_kv (new_cache ! j) = Some kvs \<and>
              length kvs = min (length (attention (layers ?self ! j)))
                (min (length ?mems) (min (length masks)
                  (cached_sources cache (0 + j) (length (attention (layers ?self ! j))))))"
    by auto
  from run_layers_memory_sources [OF rl]
  have src: "\<forall>k < length (layers ?self). \<exists>kvs. memory_kv (new_cache ! k) = Some kvs \<and>
              (\<forall>j < length kvs. \<exists>q r.
                 (attention (layers ?self ! k) ! j) q (?mems ! j) (Some (masks ! j))
                   (cached_pair cache (0 + k) j) training = Some r \<and> result_kv r = kvs ! j)"
    by auto
  have n: "length (layers ?self) = n_layers"
    by (simp add: layers_SelfAttentionDecoder)
  have a: "\<And>i. i < n_layers \<Longrightarrow> length (attention (layers ?self ! i)) = n_sources"
    by (simp add: layers_SelfAttentionDecoder length_attention_SelfAttentionDecoderLayer)
  have f: "\<And>i j. i < n_layers \<Longrightarrow> j < n_sources \<Longrightarrow>
      attention (layers ?self ! i) ! j =
      new_attention cls i j n_heads n_units attention_dropout (n_sources = 1) dropout_rate"
    by (simp add: layers_SelfAttentionDecoder SelfAttentionDecoderLayer_def)
  show ?thesis
  proof (intro conjI allI impI)
    show "length new_cache = n_layers" using len n by simp
  next
    fix i assume i: "i < n_layers"
    with each n obtain kvs where kvs: "memory_kv (new_cache ! i) = Some kvs"
      and lk: "length kvs = min (length (attention (layers ?self ! i)))
                (min (length ?mems) (min (length masks)
                  (cached_sources cache (0 + i) (length (attention (layers ?self ! i))))))"
      by auto
    from lk a [OF i] masks(2) have lk': "length kvs = min n_sources (min (length ?mems)
              (min (length (seq_items memory_sequence_length))
                   (cached_sources cache i n_sources)))"
      by (auto simp: min.assoc)
    from src i n kvs have calls: "\<forall>j < length kvs. \<exists>q r.
                 (attention (layers ?self ! i) ! j) q (?mems ! j) (Some (masks ! j))
                   (cached_pair cache i j) training = Some r \<and> result_kv r = kvs ! j"
      by auto
    have "\<forall>j < length kvs. \<exists>q mk msk r.
               sequence_mask lib (seq_items memory_sequence_length ! j)
                 (shape lib (?mems ! j) ! 1) = Some mk \<and>
               expand_dims lib mk 1 = Some msk \<and>
               new_attention cls i j n_heads n_units attention_dropout (n_sources = 1) dropout_rate
                 q (?mems ! j) (Some msk) (cached_pair cache i j) training = Some r \<and>
               result_kv r = kvs ! j"
    proof (intro allI impI)
      fix j assume j: "j < length kvs"
      with lk' have js: "j < n_sources" and jm: "j < length masks"
        using masks(2) by simp_all
      from calls j obtain q r where
        c: "(attention (layers ?self ! i) ! j) q (?mems ! j) (Some (masks ! j))
                   (cached_pair cache i j) training = Some r" "result_kv r = kvs ! j"
        by blast
      from mk jm obtain mk0 where
        m0: "sequence_mask lib (seq_items memory_sequence_length ! j) (shape lib (?mems ! j) ! 1)
                = Some mk0" "expand_dims lib mk0 1 = Some (masks ! j)"
        by blast
      from c m0 show "\<exists>q mk msk r.
               sequence_mask lib (seq_items memory_sequence_length ! j)
                 (shape lib (?mems ! j) ! 1) = Some mk \<and>
               expand_dims lib mk 1 = Some msk \<and>
               new_attention cls i j n_heads n_units attention_dropout (n_sources = 1) dropout_rate
                 q (?mems ! j) (Some msk) (cached_pair cache i j) training = Some r \<and>
               result_kv r = kvs ! j"
        unfolding f [OF i js]
        by (intro exI [of _ q] exI [of _ mk0] exI [of _ "masks ! j"] exI [of _ r]) simp
    qed
    with kvs lk' show "\<exists>kvs. memory_kv (new_cache ! i) = Some kvs \<and>
            length kvs = min n_sources (min (length ?mems)
              (min (length (seq_items memory_sequence_length))
                   (cached_sources cache i n_sources))) \<and>
            (\<forall>j < length kvs. \<exists>q mk msk r.
               sequence_mask lib (seq_items memory_sequence_length ! j)
                 (shape lib (?mems ! j) ! 1) = Some mk \<and>
               expand_dims lib mk 1 = Some msk \<and>
               new_attention cls i j n_heads n_units attention_dropout (n_sources = 1) dropout_rate
                 q (?mems ! j) (Some msk) (cached_pair cache i j) training = Some r \<and>
               result_kv r = kvs ! j)"
      by simp
  qed
qed

lemma run_two_sources_three_memories:
  "run shape_tf decoder_two_sources [2, 3, 4] (Some [2]) None
     (Some (Seq [[2, 5, 4], [2, 6, 4], [2, 7, 4]])) (Some (Seq [[2], [2], [2]])) None None
   = Inr ([2, 3, 4],
          [\<lparr>self_kv = Some ([2, 2, 3, 2], [2, 2, 3, 2]),
             memory_kv = Some [([2, 2, 5, 2], [2, 2, 5, 2]), ([2, 2, 6, 2], [2, 2, 6, 2])]\<rparr>,
           \<lparr>self_kv = Some ([2, 2, 3, 2], [2, 2, 3, 2]),
             memory_kv = Some [([2, 2, 5, 2], [2, 2, 5, 2]), ([2, 2, 6, 2], [2, 2, 6, 2])]\<rparr>],
          None)"
  by (simp add: shape_eval)

theorem mismatched_sources_are_truncated_witness:
  "\<exists>outputs c0 c1 att k0 k1 q0 q1 r0 r1.
     run shape_tf decoder_two_sources [2, 3, 4] (Some [2]) None
       (Some (Seq [[2, 5, 4], [2, 6, 4], [2, 7, 4]])) (Some (Seq [[2], [2], [2]])) None None
     = Inr (outputs, [c0, c1], att) \<and>
     memory_kv c0 = Some [k0, k1] \<and>
     new_attention shape_classes 0 0 2 4 (1 / 10) False (1 / 10)
       q0 [2, 5, 4] (Some [2, 1, 5]) None None = Some r0 \<and> result_kv r0 = k0 \<and>
     new_attention shape_classes 0 1 2 4 (1 / 10) False (1 / 10)
       q1 [2, 6, 4] (Some [2, 1, 6]) None None = Some r1 \<and> result_kv r1 = k1"
proof -
  note r = run_two_sources_three_memories [unfolded decoder_two_sources_def]
  note t = mismatched_sources_are_truncated [OF r, THEN conjunct2, rule_format]
  have i0: "(0::nat) < 2" by simp
  from t [OF i0] obtain kvs where
    kv: "memory_kv ([\<lparr>self_kv = Some ([2, 2, 3, 2], [2, 2, 3, 2 :: nat]),
             memory_kv = Some [([2, 2, 5, 2], [2, 2, 5, 2]), ([2, 2, 6, 2], [2, 2, 6, 2])]\<rparr>,
           \<lparr>self_kv = Some ([2, 2, 3, 2], [2, 2, 3, 2]),
             memory_kv = Some [([2, 2, 5, 2], [2, 2, 5, 2]), ([2, 2, 6, 2], [2, 2, 6, 2])]\<rparr>] ! 0)
         = Some kvs"
    and calls: "\<forall>j < length kvs. \<exists>q mk msk r.
        sequence_mask shape_tf (seq_items (Seq [[2], [2], [2]]) ! j)
          (shape shape_tf (seq_items (Seq [[2, 5, 4], [2, 6, 4], [2, 7, 4]]) ! j) ! 1) = Some mk \<and>
        expand_dims shape_tf mk 1 = Some msk \<and>
        new_attention shape_classes 0 j 2 4 (1 / 10) ((2 :: nat) = 1) (1 / 10) q
          (seq_items (Seq [[2, 5, 4], [2, 6, 4], [2, 7, 4]]) ! j) (Some msk)
          (cached_pair None 0 j) None = Some r \<and>
        result_kv r = kvs ! j"
    by blast
  from kv have kvs: "kvs = [([2, 2, 5, 2], [2, 2, 5, 2]), ([2, 2, 6, 2], [2, 2, 6, 2])]"
    by simp
  have j0: "0 < length kvs" and j1: "1 < length kvs" by (simp_all add: kvs)
  from calls [rule_format, OF j0] obtain q0 r0 where
    c0: "new_attention shape_classes 0 0 2 4 (1 / 10) False (1 / 10) q0 [2, 5, 4]
           (Some [2, 1, 5]) None None = Some r0" "result_kv r0 = ([2, 2, 5, 2], [2, 2, 5, 2])"
    by (auto simp: kvs seq_items_def cached_pair_def shape_tf_def)
  from calls [rule_format, OF j1] obtain q1 r1 where
    c1: "new_attention shape_classes 0 1 2 4 (1 / 10) False (1 / 10) q1 [2, 6, 4]
           (Some [2, 1, 6]) None None = Some r1" "result_kv r1 = ([2, 2, 6, 2], [2, 2, 6, 2])"
    by (auto simp: kvs seq_items_def cached_pair_def shape_tf_def)
  from run_two_sources_three_memories c0 c1 show ?thesis
    by (intro exI [of _ "[2, 3, 4]"] exI [of _ "\<lparr>self_kv = Some ([2, 2, 3, 2], [2, 2, 3, 2]),
             memory_kv = Some [([2, 2, 5, 2], [2, 2, 5, 2]), ([2, 2, 6, 2], [2, 2, 6, 2])]\<rparr>"]
          exI [of _ None] exI [of _ "([2, 2, 5, 2], [2, 2, 5, 2])"]
          exI [of _ "([2, 2, 6, 2], [2, 2, 6, 2])"] exI [of _ q0] exI [of _ q1]
          exI [of _ r0] exI [of _ r1]) simp
qed

text \<open>
  C6, as the claim states it, fails: the decoder built for two sources, called with one
  memory tensor and one length vector, returns a result.
\<close>

theorem mismatched_sources_counterexample:
  "num_sources decoder_two_sources = 2 \<and>
   length (seq_items (Seq [[2, 5, 4 :: nat]])) = 1 \<and>
   forward shape_tf decoder_two_sources [2, 3, 4] (Some [2]) (None :: unit option)
     (Some (Seq [[2, 5, 4]])) (Some (Seq [[2]])) (None :: unit option) (None :: unit option) None
   = Inr ([2, 3, 7],
          [\<lparr>self_kv = Some ([2, 2, 3, 2], [2, 2, 3, 2]),
             memory_kv = Some [([2, 2, 5, 2], [2, 2, 5, 2])]\<rparr>,
           \<lparr>self_kv = Some ([2, 2, 3, 2], [2, 2, 3, 2]),
             memory_kv = Some [([2, 2, 5, 2], [2, 2, 5, 2])]\<rparr>],
          None)"
  by (simp add: shape_eval)

section \<open>The attention of a decoder built for one source\<close>

lemma run_layers_last_call_index:
  assumes "list_all (layer_spec lib h d n) ls" and "ls \<noteq> []"
    and "run_layers lib ls i m mem mm c tr x nc att = Inr (x', nc', att')"
  shows "\<exists>xin ci y lc a.
           call lib (last ls) xin m mem mm ci tr = Inr (y, lc, a) \<and> att' = Some a \<and>
           shape lib xin = shape lib x \<and>
           (case c of
              None \<Rightarrow> ci = None
            | Some c' \<Rightarrow> i + length ls - 1 < length c' \<and> ci = Some (c' ! (i + length ls - 1)))"
  using assms
proof (induction ls arbitrary: i x nc att)
  case Nil
  then show ?case by simp
next
  case (Cons l ls)
  from Cons.prems(3) obtain ci x1 lc a1 where
    ci: "(case c of None \<Rightarrow> Inr None
          | Some c' \<Rightarrow> if i < length c' then Inr (Some (c' ! i)) else Inl IndexError) = Inr ci"
    and c1: "call lib l x m mem mm ci tr = Inr (x1, lc, a1)"
    and rest: "run_layers lib ls (Suc i) m mem mm c tr x1 (nc @ [lc]) (Some a1) = Inr (x', nc', att')"
    by (rule run_layers_ConsE)
  from Cons.prems(1) have l: "layer_spec lib h d n l" and ls: "list_all (layer_spec lib h d n) ls"
    by simp_all
  from call_shape [OF l c1] have sx: "shape lib x1 = shape lib x" by simp
  show ?case
  proof (cases "ls = []")
    case True
    with rest have a: "att' = Some a1" by simp
    from ci have n: "(case c of None \<Rightarrow> ci = None
            | Some c' \<Rightarrow> i < length c' \<and> ci = Some (c' ! i))"
      by (cases c) (auto split: if_splits)
    from c1 a n have "call lib (last (l # ls)) x m mem mm ci tr = Inr (x1, lc, a1) \<and>
        att' = Some a1 \<and> shape lib x = shape lib x \<and>
        (case c of
           None \<Rightarrow> ci = None
         | Some c' \<Rightarrow> i + length (l # ls) - 1 < length c' \<and>
                      ci = Some (c' ! (i + length (l # ls) - 1)))"
      by (cases c) (simp_all add: True)
    then show ?thesis by blast
  next
    case False
    from Cons.IH [OF ls False rest] obtain xin ci' y' lc' a' where
      "call lib (last ls) xin m mem mm ci' tr = Inr (y', lc', a')" "att' = Some a'"
      "shape lib xin = shape lib x1"
      "(case c of None \<Rightarrow> ci' = None
            | Some c' \<Rightarrow> Suc i + length ls - 1 < length c' \<and>
                         ci' = Some (c' ! (Suc i + length ls - 1)))"
      by blast
    then have "call lib (last (l # ls)) xin m mem mm ci' tr = Inr (y', lc', a') \<and>
        att' = Some a' \<and> shape lib xin = shape lib x \<and>
        (case c of
           None \<Rightarrow> ci' = None
         | Some c' \<Rightarrow> i + length (l # ls) - 1 < length c' \<and>
                      ci' = Some (c' ! (i + length (l # ls) - 1)))"
      by (cases c) (simp_all add: False sx)
    then show ?thesis by blast
  qed
qed

lemma call_one_source_attention_cached:
  assumes "tf_spec lib" and "layer_spec lib h d 1 l"
    and "mems \<noteq> []" and "masks \<noteq> []"
    and "cache_after lib mems k lc0" and "memory_kv lc0 = Some [kv0]"
    and "call lib l x m (Some mems) (Some masks) (Some lc0) tr = Inr (y, lc, a)"
  shows "\<exists>a0 q y' kv w. a = Some a0 \<and>
           shape lib a0 = [shape lib x ! 0, shape lib x ! 1, shape lib (hd mems) ! 1] \<and>
           hd (attention l) q (hd mems) (Some (hd masks)) (Some kv0) tr = Some (Result3 y' kv w) \<and>
           first_head lib w = Some a0"
proof -
  from assms(2) have sas: "self_attention_spec lib h d (self_attention l)"
    and len: "length (attention l) = 1"
    and ats: "list_all (attention_spec lib h d True) (attention l)"
    by (simp_all add: layer_spec_def)
  from len obtain f where f: "attention l = [f]"
    by (cases "attention l") auto
  from assms(3) obtain m0 ms where mems: "mems = m0 # ms" by (cases mems) auto
  from assms(4) obtain k0 ks where masks: "masks = k0 # ks" by (cases masks) auto
  from assms(7) obtain x1 skv x2 mkv where
    sa: "self_attention l x m (self_kv lc0) tr = Some (x1, skv)"
    and at: "attend lib tr [(f, m0, k0, Some kv0)] x1 None [] = Inr (x2, a, mkv)"
    by (elim call_InrE) (simp add: f mems masks assms(6))
  from at obtain r where r: "f x1 m0 (Some k0) (Some kv0) tr = Some r"
    and rest: "(case r of
         Result3 outputs' memory_kv_i w \<Rightarrow>
           bindE (collab (first_head lib w)) (\<lambda>a0. Inr (outputs', Some a0, [memory_kv_i]))
       | Result2 outputs' memory_kv_i \<Rightarrow> Inr (outputs', None, [memory_kv_i]))
       = Inr (x2, a, mkv)"
    by (auto simp: bindE_eq_Inr)
  obtain sk sv where skv: "skv = (sk, sv)" by (cases skv)
  from self_attention_specD(2) [OF sas sa [unfolded skv]] have x1: "shape lib x1 = shape lib x" .
  from ats f have sp: "attention_spec lib h d True f" by simp
  from attention_spec_kv_rule [OF sp r]
  have rule: "memory_kv_rule lib m0 (Some kv0) (result_kv r)" .
  from assms(5) obtain cm where cm: "memory_kv lc0 = Some cm"
    and old: "\<forall>j < length cm. time_dim lib (fst (cm ! j)) = 0 \<or>
           (j < length mems \<and> time_dim lib (fst (cm ! j)) = shape lib (mems ! j) ! 1 \<and>
            time_dim lib (snd (cm ! j)) = shape lib (mems ! j) ! 1)"
    by (rule cache_after_memory_kv)
  from cm assms(6) have cm': "cm = [kv0]" by simp
  from old [unfolded cm', rule_format, of 0]
  have "time_dim lib (fst kv0) = 0 \<or>
         (time_dim lib (fst kv0) = shape lib m0 ! 1 \<and> time_dim lib (snd kv0) = shape lib m0 ! 1)"
    by (simp add: mems)
  from memory_kv_rule_times [OF rule this]
  have k: "shape lib (fst (result_kv r)) ! 2 = shape lib m0 ! 1"
    by (simp add: time_dim_def)
  from attention_specD(4) [OF sp r] obtain w where
    w: "result_attention r = Some w"
      "shape lib w = [shape lib x1 ! 0, h, shape lib x1 ! 1, shape lib (fst (result_kv r)) ! 2]"
    by (cases "result_attention r") simp_all
  from w(1) obtain y' kv where r3: "r = Result3 y' kv w"
    by (cases r) simp_all
  from w(2) k have sw: "shape lib w = [shape lib x ! 0, h, shape lib x ! 1, shape lib m0 ! 1]"
    by (simp add: x1)
  from rest r3 obtain a0 where a0: "first_head lib w = Some a0" "a = Some a0"
    by (auto simp: bindE_eq_Inr)
  from assms(1) have
    "\<forall>a y. first_head lib a = Some y \<longrightarrow>
       2 \<le> length (shape lib a) \<and> 0 < shape lib a ! 1 \<and>
       shape lib y = take 1 (shape lib a) @ drop 2 (shape lib a)"
    by (simp add: tf_spec_def)
  from this [rule_format, OF a0(1)]
  have "shape lib a0 = take 1 (shape lib w) @ drop 2 (shape lib w)" by simp
  with sw have sa0: "shape lib a0 = [shape lib x ! 0, shape lib x ! 1, shape lib (hd mems) ! 1]"
    by (simp add: mems)
  from r r3 have "hd (attention l) x1 (hd mems) (Some (hd masks)) (Some kv0) tr
      = Some (Result3 y' kv w)"
    by (simp add: f mems masks)
  with a0 sa0 show ?thesis
    by (intro exI [of _ a0] exI [of _ x1] exI [of _ y'] exI [of _ kv] exI [of _ w]) simp
qed

lemma initial_state_memory_kv_length:
  assumes "get_initial_state lib self b dt init = Inr c0"
  shows "list_all (\<lambda>lc. \<exists>kvs. memory_kv lc = Some kvs \<and> length kvs = num_sources self) c0"
proof (cases "num_heads self = 0")
  case True
  with assms have "c0 = []"
    by (cases "layers self"; simp add: get_initial_state_def)
  then show ?thesis by simp
next
  case False
  let ?z = "zeros lib [b, num_heads self, 0, num_units self div num_heads self] dt"
  from False have h: "0 < num_heads self" by simp
  from assms initial_state_layers_replicate [OF h, of lib b dt "layers self"]
  have c0: "c0 = replicate (length (layers self))
       \<lparr>self_kv = Some (?z, ?z), memory_kv = Some (replicate (num_sources self) (?z, ?z))\<rparr>"
    by (simp add: get_initial_state_def)
  then show ?thesis by (simp add: list_all_length)
qed

lemma run_memory_kv_length_one:
  assumes "decoder_spec lib self" and "num_sources self = 1"
    and "memory_list memory \<noteq> []" and "memory_list msl \<noteq> []"
    and "length c = length (layers self)"
    and "list_all (\<lambda>lc. \<exists>kvs. memory_kv lc = Some kvs \<and> length kvs = 1) c"
    and "run lib self x sl (Some c) memory msl st tr = Inr (y, nc, a)"
  shows "list_all (\<lambda>lc. \<exists>kvs. memory_kv lc = Some kvs \<and> length kvs = 1) nc"
proof -
  from assms(3,4) obtain mem len where mem: "memory = Some mem" and len: "msl = Some len"
    and items: "seq_items mem \<noteq> []" "seq_items len \<noteq> []"
    by (cases memory; cases msl) (auto simp: memory_list_def)
  from assms(7) obtain x1 m mm x2 where
    pm: "prepare_memory_mask lib (as_tuple memory) msl = Inr mm"
    and rl: "run_layers lib (layers self) 0 m (as_tuple memory) mm (Some c) tr x1 [] None
               = Inr (x2, nc, Some a)"
    by (rule run_InrE)
  have at: "as_tuple memory = Some (seq_items mem)" by (simp add: as_tuple_def mem)
  from prepare_memory_mask_length [OF pm [unfolded at len]] obtain masks where
    masks: "mm = Some masks" "length masks = min (length (seq_items mem)) (length (seq_items len))"
    by blast
  from items masks(2) have pos: "1 \<le> length (seq_items mem)" "1 \<le> length masks"
    by (simp_all add: Suc_le_eq)
  from run_layers_memory_kv_length [OF rl [unfolded at masks(1)]]
  have n: "length nc = length (layers self)"
    and each: "\<forall>j < length (layers self). \<exists>kvs. memory_kv (nc ! j) = Some kvs \<and>
              length kvs = min (length (attention (layers self ! j)))
                (min (length (seq_items mem)) (min (length masks)
                  (cached_sources (Some c) (0 + j) (length (attention (layers self ! j))))))"
    by auto
  from assms(1,2) have ls: "list_all (layer_spec lib (num_heads self)
        (num_units self div num_heads self) 1) (layers self)"
    by (simp add: decoder_spec_def)
  have "\<forall>j < length nc. \<exists>kvs. memory_kv (nc ! j) = Some kvs \<and> length kvs = 1"
  proof (intro allI impI)
    fix j assume "j < length nc"
    with n have j: "j < length (layers self)" by simp
    from ls j have "layer_spec lib (num_heads self) (num_units self div num_heads self) 1
        (layers self ! j)"
      by (simp add: list_all_length)
    then have a1: "length (attention (layers self ! j)) = 1" by (simp add: layer_spec_def)
    from assms(5,6) j obtain cm where "memory_kv (c ! j) = Some cm" "length cm = 1"
      by (auto simp: list_all_length)
    then have cs: "cached_sources (Some c) j 1 = 1" by (simp add: cached_sources_def)
    from each j obtain kvs where kvs: "memory_kv (nc ! j) = Some kvs"
      and lk: "length kvs = min (length (attention (layers self ! j)))
                (min (length (seq_items mem)) (min (length masks)
                  (cached_sources (Some c) (0 + j) (length (attention (layers self ! j))))))"
      by blast
    from lk a1 cs have "length kvs = min 1 (min (length (seq_items mem)) (min (length masks) 1))"
      by simp
    with pos have "length kvs = 1" by arith
    with kvs show "\<exists>kvs. memory_kv (nc ! j) = Some kvs \<and> length kvs = 1" by simp
  qed
  then show ?thesis by (simp add: list_all_length)
qed

lemma successive_steps_memory_kv_length_one:
  assumes "tf_spec lib" and "decoder_spec lib self" and "num_sources self = 1"
    and "memory_list memory \<noteq> []" and "memory_list msl \<noteq> []"
    and "list_all (cache_after lib (memory_list memory) k) c0"
    and "length c0 = length (layers self)"
    and "list_all (\<lambda>lc. \<exists>kvs. memory_kv lc = Some kvs \<and> length kvs = 1) c0"
    and "successive_steps lib self calls c0 memory msl tr = Inr c"
  shows "list_all (\<lambda>lc. \<exists>kvs. memory_kv lc = Some kvs \<and> length kvs = 1) c"
  using assms(6,7,8,9)
proof (induction calls arbitrary: k c0)
  case Nil
  then show ?case by simp
next
  case (Cons call calls)
  obtain x t where call: "call = (x, t)" by (cases call)
  from Cons.prems(4) obtain outputs c1 att where
    s: "step lib self x t (Some c0) memory msl tr = Inr (outputs, c1, att)"
    and rest: "successive_steps lib self calls c1 memory msl tr = Inr c"
    by (auto simp: call bindE_eq_Inr)
  from step_cache_after [OF assms(1,2) Cons.prems(1) s]
  have c1: "length c1 = length (layers self)"
    "list_all (cache_after lib (memory_list memory) (Suc k)) c1"
    by simp_all
  from s obtain x1 o1 a1 where
    r: "run lib self x1 None (Some c0) memory msl (Some t) tr = Inr (o1, c1, a1)"
    by (rule step_InrE)
  from run_memory_kv_length_one [OF assms(2,3,4,5) Cons.prems(2,3) r]
  have one: "list_all (\<lambda>lc. \<exists>kvs. memory_kv lc = Some kvs \<and> length kvs = 1) c1" .
  from Cons.IH [OF c1(2) c1(1) one rest] show ?case .
qed

lemma reachable_cache_one_source:
  assumes "tf_spec lib" and "decoder_spec lib self" and "num_sources self = 1"
    and "memory_list memory \<noteq> []" and "memory_list msl \<noteq> []"
    and "get_initial_state lib self b dt init = Inr c0"
    and "successive_steps lib self calls c0 memory msl tr = Inr c"
  shows "list_all (cache_after lib (memory_list memory) (length calls)) c \<and>
         list_all (\<lambda>lc. \<exists>kvs. memory_kv lc = Some kvs \<and> length kvs = 1) c"
proof -
  from initial_state_cache_after [OF assms(1,6)]
  have i: "length c0 = length (layers self)"
    "list_all (cache_after lib (memory_list memory) 0) c0"
    by simp_all
  from initial_state_memory_kv_length [OF assms(6)] assms(3)
  have one: "list_all (\<lambda>lc. \<exists>kvs. memory_kv lc = Some kvs \<and> length kvs = 1) c0" by simp
  from successive_steps_cache_after [OF assms(1,2) i(2) i(1) assms(7)]
  have "list_all (cache_after lib (memory_list memory) (length calls)) c" by simp
  moreover from successive_steps_memory_kv_length_one [OF assms(1,2,3,4,5) i(2) i(1) one assms(7)]
  have "list_all (\<lambda>lc. \<exists>kvs. memory_kv lc = Some kvs \<and> length kvs = 1) c" .
  ultimately show ?thesis by simp
qed

lemma run_one_source_attention:
  assumes "tf_spec lib" and "decoder_spec lib self" and "num_sources self = 1"
    and "memory_list memory \<noteq> []" and "memory_list msl \<noteq> []"
    and "cache = None \<or>
         (\<exists>c k. cache = Some c \<and> list_all (cache_after lib (memory_list memory) k) c \<and>
            list_all (\<lambda>lc. \<exists>kvs. memory_kv lc = Some kvs \<and> length kvs = 1) c)"
    and "run lib self inputs sl cache memory msl st tr = Inr (outputs, new_cache, att)"
  shows "\<exists>a q mk msk y kv w. att = Some a \<and>
           shape lib a = [shape lib inputs ! 0, shape lib inputs ! 1,
                          shape lib (hd (memory_list memory)) ! 1] \<and>
           sequence_mask lib (hd (memory_list msl)) (shape lib (hd (memory_list memory)) ! 1)
             = Some mk \<and>
           expand_dims lib mk 1 = Some msk \<and>
           hd (attention (last (layers self))) q (hd (memory_list memory)) (Some msk)
             (cached_pair cache (length (layers self) - 1) 0) tr = Some (Result3 y kv w) \<and>
           first_head lib w = Some a"
proof -
  from assms(4,5) obtain mem len where mem: "memory = Some mem" and len: "msl = Some len"
    and items: "seq_items mem \<noteq> []" "seq_items len \<noteq> []"
    by (cases memory; cases msl) (auto simp: memory_list_def)
  have ml: "memory_list memory = seq_items mem" "memory_list msl = seq_items len"
    by (simp_all add: memory_list_def mem len)
  have at: "as_tuple memory = Some (seq_items mem)" by (simp add: as_tuple_def mem)
  from assms(7) obtain x1 m mm x2 where
    p: "process_inputs lib self inputs st tr = Inr x1"
    and pm: "prepare_memory_mask lib (as_tuple memory) msl = Inr mm"
    and rl: "run_layers lib (layers self) 0 m (as_tuple memory) mm cache tr x1 [] None
               = Inr (x2, new_cache, Some att)"
    by (rule run_InrE)
  from prepare_memory_mask_nth [OF pm [unfolded at len]] obtain masks where
    masks: "mm = Some masks" "length masks = min (length (seq_items mem)) (length (seq_items len))"
    and mk: "\<forall>j < length masks. \<exists>mk.
              sequence_mask lib (seq_items len ! j) (shape lib (seq_items mem ! j) ! 1) = Some mk \<and>
              expand_dims lib mk 1 = Some (masks ! j)"
    by blast
  from items masks(2) have mne: "masks \<noteq> []"
    by (auto simp: min_def split: if_splits)
  then have "0 < length masks" by simp
  from mk [rule_format, OF this] obtain mk0 where
    mk0: "sequence_mask lib (hd (seq_items len)) (shape lib (hd (seq_items mem)) ! 1) = Some mk0"
      "expand_dims lib mk0 1 = Some (hd masks)"
    using items mne by (auto simp: hd_conv_nth)
  from assms(2,3) have ls: "list_all (layer_spec lib (num_heads self)
        (num_units self div num_heads self) 1) (layers self)"
    by (simp add: decoder_spec_def)
  from rl have ne: "layers self \<noteq> []" by auto
  from run_layers_last_call_index [OF ls ne rl] obtain xin ci y lc where
    c: "call lib (last (layers self)) xin m (as_tuple memory) mm ci tr = Inr (y, lc, att)"
    and xin: "shape lib xin = shape lib x1"
    and ci: "(case cache of
              None \<Rightarrow> ci = None
            | Some c' \<Rightarrow> 0 + length (layers self) - 1 < length c' \<and>
                         ci = Some (c' ! (0 + length (layers self) - 1)))"
    by blast
  from ne ls have l1: "layer_spec lib (num_heads self) (num_units self div num_heads self) 1
      (last (layers self))"
    by (simp add: list_all_iff)
  from process_inputs_shape [OF assms(1,2) p] xin have sx: "shape lib xin = shape lib inputs"
    by simp
  from c have c': "call lib (last (layers self)) xin m (Some (seq_items mem)) (Some masks) ci tr
      = Inr (y, lc, att)"
    by (simp only: at masks(1))
  have "\<exists>a0 q y' kv w. att = Some a0 \<and>
           shape lib a0 = [shape lib xin ! 0, shape lib xin ! 1, shape lib (hd (seq_items mem)) ! 1] \<and>
           hd (attention (last (layers self))) q (hd (seq_items mem)) (Some (hd masks))
             (cached_pair cache (length (layers self) - 1) 0) tr = Some (Result3 y' kv w) \<and>
           first_head lib w = Some a0"
  proof (cases cache)
    case None
    with ci have "ci = None" by simp
    from call_one_source_attention [OF assms(1) l1 items(1) mne c' [unfolded this]]
    show ?thesis by (simp add: None cached_pair_def)
  next
    case (Some c0)
    with ci have idx: "length (layers self) - 1 < length c0"
      and cie: "ci = Some (c0 ! (length (layers self) - 1))"
      by simp_all
    from assms(6) Some obtain k where
      inv: "list_all (cache_after lib (memory_list memory) k) c0"
      and one: "list_all (\<lambda>lc. \<exists>kvs. memory_kv lc = Some kvs \<and> length kvs = 1) c0"
      by auto
    from inv idx have ca: "cache_after lib (seq_items mem) k (c0 ! (length (layers self) - 1))"
      by (simp add: list_all_length ml)
    from one idx obtain kvs where kvs: "memory_kv (c0 ! (length (layers self) - 1)) = Some kvs"
      "length kvs = 1"
      by (auto simp: list_all_length)
    from kvs(2) obtain kv0 where kv0: "kvs = [kv0]"
      by (cases kvs) auto
    from kvs(1) kv0 have mkv: "memory_kv (c0 ! (length (layers self) - 1)) = Some [kv0]" by simp
    have cp: "cached_pair cache (length (layers self) - 1) 0 = Some kv0"
      using mkv by (simp add: cached_pair_def Some)
    from call_one_source_attention_cached [OF assms(1) l1 items(1) mne ca mkv c' [unfolded cie]]
    show ?thesis by (simp only: cp)
  qed
  then obtain a0 q y' kv w where r: "att = Some a0"
    "shape lib a0 = [shape lib xin ! 0, shape lib xin ! 1, shape lib (hd (seq_items mem)) ! 1]"
    "hd (attention (last (layers self))) q (hd (seq_items mem)) (Some (hd masks))
             (cached_pair cache (length (layers self) - 1) 0) tr = Some (Result3 y' kv w)"
    "first_head lib w = Some a0"
    by blast
  from r mk0 show ?thesis
    unfolding ml sx
    by (intro exI [of _ a0] exI [of _ q] exI [of _ mk0] exI [of _ "hd masks"] exI [of _ y']
          exI [of _ kv] exI [of _ w] conjI)
qed

lemma last_layer_attention_SelfAttentionDecoder:
  assumes "0 < n_layers"
  shows "hd (attention (last (layers
           (SelfAttentionDecoder cls n_layers n_units n_heads ffn_inner_dim dropout_rate
              attention_dropout ffn_dropout position_encoder_class 1 out_layer)))) =
         new_attention cls (n_layers - 1) 0 n_heads n_units attention_dropout True dropout_rate"
  using assms
  by (simp add: layers_SelfAttentionDecoder last_map SelfAttentionDecoderLayer_def)


lemma one_step_one_source:
  "successive_steps shape_tf decoder_one_source [([2, 4], 0)]
     [\<lparr>self_kv = Some ([2, 2, 0, 2], [2, 2, 0, 2]),
        memory_kv = Some [([2, 2, 0, 2], [2, 2, 0, 2])]\<rparr>,
      \<lparr>self_kv = Some ([2, 2, 0, 2], [2, 2, 0, 2]),
        memory_kv = Some [([2, 2, 0, 2], [2, 2, 0, 2])]\<rparr>]
     (Some (Bare [2, 5, 4])) (Some (Bare [2])) None
   = Inr [\<lparr>self_kv = Some ([2, 2, 1, 2], [2, 2, 1, 2]),
            memory_kv = Some [([2, 2, 5, 2], [2, 2, 5, 2])]\<rparr>,
          \<lparr>self_kv = Some ([2, 2, 1, 2], [2, 2, 1, 2]),
            memory_kv = Some [([2, 2, 5, 2], [2, 2, 5, 2])]\<rparr>]"
  by (simp only: successive_steps.simps first_step_one_source bindE_Inr prod.case)

lemma run_one_source_cached:
  "run shape_tf decoder_one_source [2, 1, 4] None
     (Some [\<lparr>self_kv = Some ([2, 2, 1, 2], [2, 2, 1, 2]),
              memory_kv = Some [([2, 2, 5, 2], [2, 2, 5, 2])]\<rparr>,
            \<lparr>self_kv = Some ([2, 2, 1, 2], [2, 2, 1, 2]),
              memory_kv = Some [([2, 2, 5, 2], [2, 2, 5, 2])]\<rparr>])
     (Some (Bare [2, 5, 4])) (Some (Bare [2])) (Some 1) None
   = Inr ([2, 1, 4],
          [\<lparr>self_kv = Some ([2, 2, 2, 2], [2, 2, 2, 2]),
             memory_kv = Some [([2, 2, 5, 2], [2, 2, 5, 2])]\<rparr>,
           \<lparr>self_kv = Some ([2, 2, 2, 2], [2, 2, 2, 2]),
             memory_kv = Some [([2, 2, 5, 2], [2, 2, 5, 2])]\<rparr>],
          Some [2, 1, 5])"
  by (simp add: shape_eval)

lemma shape_position_encoder_shape:
  "\<forall>encoder x p y. Some shape_position_encoder = Some encoder \<longrightarrow> encoder x p = Some y \<longrightarrow>
     shape shape_tf y = shape shape_tf x"
  by (auto simp: shape_position_encoder_def shape_tf_def split: if_splits)



end
